theory Spec2Isabelle
  imports Main "HOL-Library.Word"
begin

section \<open>Machine types\<close>

text \<open>
  The target is an ESP8266: \<open>unsigned long\<close>, \<open>uint32_t\<close> and \<open>size_t\<close> are 32-bit
  unsigned, \<open>long\<close> and \<open>int\<close> are 32-bit signed. Tick values (\<open>millis()\<close>) and the
  interval period are 32-bit words, so that \<open>+\<close>, \<open>-\<close> and \<open>*\<close> wrap as in the C++.
  Wall-clock seconds (\<open>time_t\<close>) and the small signed quantities (minutes, indices,
  day of year) are \<open>int\<close>.
\<close>

type_synonym u32 = "32 word"
type_synonym u16 = "16 word"

section \<open>The Arduino String operations used by the sketch\<close>

text \<open>
  \<open>String\<close> is a byte string; the model is \<open>string\<close>. The operations below follow the
  Arduino core: \<open>toInt\<close> is \<open>atol\<close> (leading white space, an optional sign, then decimal
  digits up to the first other character; newlib saturates at the bounds of \<open>long\<close>),
  \<open>trim\<close> strips white space at both ends, \<open>equalsIgnoreCase\<close> compares lengths and then
  the characters through \<open>tolower\<close>, \<open>startsWith\<close> compares the prefix byte by byte.
\<close>

definition isSpace :: "char \<Rightarrow> bool" where
  "isSpace c = (c = CHR '' '' \<or> (9 \<le> (of_char c :: nat) \<and> (of_char c :: nat) \<le> 13))"

definition isDigit :: "char \<Rightarrow> bool" where
  "isDigit c = (48 \<le> (of_char c :: nat) \<and> (of_char c :: nat) \<le> 57)"

definition isUpper :: "char \<Rightarrow> bool" where
  "isUpper c = (65 \<le> (of_char c :: nat) \<and> (of_char c :: nat) \<le> 90)"

fun toLowerCase :: "char \<Rightarrow> char" where
  "toLowerCase (Char b0 b1 b2 b3 b4 b5 b6 b7) =
     (if isUpper (Char b0 b1 b2 b3 b4 b5 b6 b7) then Char b0 b1 b2 b3 b4 True b6 b7
      else Char b0 b1 b2 b3 b4 b5 b6 b7)"

fun digitsValue :: "int \<Rightarrow> string \<Rightarrow> int" where
  "digitsValue acc [] = acc"
| "digitsValue acc (c # cs) =
     (if isDigit c then digitsValue (acc * 10 + (int (of_char c) - 48)) cs else acc)"

definition clampLong :: "int \<Rightarrow> int" where
  "clampLong v = (if v > 2147483647 then 2147483647
                  else if v < - 2147483648 then - 2147483648 else v)"

definition toInt :: "string \<Rightarrow> int" where
  "toInt s =
     (case dropWhile isSpace s of
        [] \<Rightarrow> 0
      | c # cs \<Rightarrow>
          if c = CHR ''-'' then clampLong (- digitsValue 0 cs)
          else if c = CHR ''+'' then clampLong (digitsValue 0 cs)
          else clampLong (digitsValue 0 (c # cs)))"

definition trim :: "string \<Rightarrow> string" where
  "trim s = rev (dropWhile isSpace (rev (dropWhile isSpace s)))"

definition equalsIgnoreCase :: "string \<Rightarrow> string \<Rightarrow> bool" where
  "equalsIgnoreCase a b = (length a = length b \<and> map toLowerCase a = map toLowerCase b)"

definition startsWith :: "string \<Rightarrow> string \<Rightarrow> bool" where
  "startsWith s p = (length p \<le> length s \<and> take (length p) s = p)"

fun indexOfFrom :: "int \<Rightarrow> char \<Rightarrow> string \<Rightarrow> int" where
  "indexOfFrom i ch [] = - 1"
| "indexOfFrom i ch (c # cs) = (if c = ch then i else indexOfFrom (i + 1) ch cs)"

definition indexOf :: "string \<Rightarrow> char \<Rightarrow> int" where
  "indexOf s ch = indexOfFrom 0 ch s"

definition substring :: "string \<Rightarrow> nat \<Rightarrow> nat \<Rightarrow> string" where
  "substring s left right =
     (let l = (if left > right then right else left);
          r = (if left > right then left else right)
      in if l \<ge> length s then [] else take (min r (length s) - l) (drop l s))"

definition substringFrom :: "string \<Rightarrow> nat \<Rightarrow> string" where
  "substringFrom s left = substring s left (length s)"

section \<open>Utility: parseTimeToMinutes\<close>

definition parseTimeToMinutes :: "string \<Rightarrow> int" where
  "parseTimeToMinutes hhmm =
     (if length hhmm < 4 then - 1
      else let colon = indexOf hhmm CHR '':'' in
        if colon < 0 then - 1
        else let hh = toInt (substring hhmm 0 (nat colon));
                 mm = toInt (substringFrom hhmm (nat colon + 1))
             in if hh < 0 \<or> hh > 23 \<or> mm < 0 \<or> mm > 59 then - 1
                else hh * 60 + mm)"

section \<open>Configuration model and globals\<close>

record AppConfig =
  triggerPin :: int
  triggerActiveHigh :: bool
  triggerDurationMs :: u32
  mqttHost :: string
  mqttPort :: u16
  mqttUser :: string
  mqttPass :: string
  mqttTopic :: string
  intervalSeconds :: u32
  intervalEnabled :: bool
  timezoneOffsetMinutes :: int
  scheduleTimes :: "string list"

definition defaultConfig :: AppConfig where
  "defaultConfig =
     \<lparr> triggerPin = 5, triggerActiveHigh = True, triggerDurationMs = 1000,
       mqttHost = [], mqttPort = 1883, mqttUser = [], mqttPass = [],
       mqttTopic = ''diffuser/trigger'',
       intervalSeconds = 0, intervalEnabled = False,
       timezoneOffsetMinutes = 0, scheduleTimes = [] \<rparr>"

text \<open>
  The document kept in \<open>/config.json\<close>, after ArduinoJson has parsed it: a field is
  \<open>None\<close> when the key is missing or its value does not convert to the field's type
  (the \<open>|\<close> operator then keeps the default).
\<close>

record MqttDoc =
  docHost :: "string option"
  docPort :: "u16 option"
  docUser :: "string option"
  docPass :: "string option"
  docTopic :: "string option"

record ConfigDoc =
  docTriggerPin :: "int option"
  docTriggerActiveHigh :: "bool option"
  docTriggerDurationMs :: "u32 option"
  docMqtt :: "MqttDoc option"
  docIntervalSeconds :: "u32 option"
  docIntervalEnabled :: "bool option"
  docTimezoneOffsetMinutes :: "int option"
  docScheduleTimes :: "string list option"

text \<open>
  The globals of the sketch, together with the two things it acts on: the sequence of
  \<open>digitalWrite\<close> calls (pin, level; \<open>True\<close> is HIGH) and the configuration file
  (\<open>None\<close>: no readable \<open>/config.json\<close>). \<open>fileWritable\<close> says whether opening the file
  for writing succeeds. Printing on the serial port is not modelled.
\<close>

record Globals =
  config :: AppConfig
  lastTriggerAt :: u32
  triggerInProgress :: bool
  nextIntervalAt :: u32
  lastTimeCheck :: int
  lastDayOfYear :: int
  scheduleFiredToday :: "bool list"
  pinWrites :: "(int \<times> bool) list"
  configFile :: "ConfigDoc option"
  fileWritable :: bool

definition initialGlobals :: Globals where
  "initialGlobals =
     \<lparr> config = defaultConfig, lastTriggerAt = 0, triggerInProgress = False,
       nextIntervalAt = 0, lastTimeCheck = 0, lastDayOfYear = - 1,
       scheduleFiredToday = [], pinWrites = [], configFile = None,
       fileWritable = True \<rparr>"

section \<open>Persistence: saveConfig and loadConfig\<close>

definition docOfConfig :: "AppConfig \<Rightarrow> ConfigDoc" where
  "docOfConfig c =
     \<lparr> docTriggerPin = Some (triggerPin c),
       docTriggerActiveHigh = Some (triggerActiveHigh c),
       docTriggerDurationMs = Some (triggerDurationMs c),
       docMqtt = Some \<lparr> docHost = Some (mqttHost c), docPort = Some (mqttPort c),
                        docUser = Some (mqttUser c), docPass = Some (mqttPass c),
                        docTopic = Some (mqttTopic c) \<rparr>,
       docIntervalSeconds = Some (intervalSeconds c),
       docIntervalEnabled = Some (intervalEnabled c),
       docTimezoneOffsetMinutes = Some (timezoneOffsetMinutes c),
       docScheduleTimes = Some (scheduleTimes c) \<rparr>"

definition saveConfig :: "Globals \<Rightarrow> Globals" where
  "saveConfig s =
     (if fileWritable s then s\<lparr>configFile := Some (docOfConfig (config s))\<rparr> else s)"

definition orDefault :: "'a option \<Rightarrow> 'a \<Rightarrow> 'a" where
  "orDefault v d = (case v of None \<Rightarrow> d | Some x \<Rightarrow> x)"

definition loadMqtt :: "MqttDoc option \<Rightarrow> AppConfig \<Rightarrow> AppConfig" where
  "loadMqtt m c =
     (case m of
        None \<Rightarrow> c
      | Some d \<Rightarrow>
          c\<lparr>mqttHost := orDefault (docHost d) (mqttHost c),
            mqttPort := orDefault (docPort d) (mqttPort c),
            mqttUser := orDefault (docUser d) (mqttUser c),
            mqttPass := orDefault (docPass d) (mqttPass c),
            mqttTopic := orDefault (docTopic d) (mqttTopic c)\<rparr>)"

definition loadConfig :: "Globals \<Rightarrow> Globals" where
  "loadConfig s =
     (case configFile s of
        None \<Rightarrow> s
      | Some doc \<Rightarrow>
          let c0 = config s;
              c1 = c0\<lparr>triggerPin := orDefault (docTriggerPin doc) (triggerPin c0),
                      triggerActiveHigh :=
                        orDefault (docTriggerActiveHigh doc) (triggerActiveHigh c0),
                      triggerDurationMs :=
                        orDefault (docTriggerDurationMs doc) (triggerDurationMs c0)\<rparr>;
              c2 = loadMqtt (docMqtt doc) c1;
              c3 = c2\<lparr>intervalSeconds :=
                        orDefault (docIntervalSeconds doc) (intervalSeconds c2),
                      intervalEnabled :=
                        orDefault (docIntervalEnabled doc) (intervalEnabled c2),
                      timezoneOffsetMinutes :=
                        orDefault (docTimezoneOffsetMinutes doc) (timezoneOffsetMinutes c2)\<rparr>;
              c4 = c3\<lparr>scheduleTimes :=
                        (case docScheduleTimes doc of
                           None \<Rightarrow> []
                         | Some ts \<Rightarrow> filter (\<lambda>t. parseTimeToMinutes t \<ge> 0) ts)\<rparr>
          in s\<lparr>config := c4\<rparr>)"

section \<open>The pulse trigger\<close>

text \<open>
  \<open>triggerPulse\<close> reads \<open>millis()\<close> once; the reading is the parameter \<open>now\<close>.
  \<open>finishPulse\<close> is the block "Finish trigger pulse" of \<open>loop\<close>, with its own reading.
\<close>

definition triggerPulse :: "u32 \<Rightarrow> Globals \<Rightarrow> Globals" where
  "triggerPulse now s =
     (if triggerInProgress s then s
      else s\<lparr>triggerInProgress := True,
             lastTriggerAt := now,
             pinWrites := pinWrites s @
               [(triggerPin (config s), triggerActiveHigh (config s))]\<rparr>)"

definition pulseElapsed :: "u32 \<Rightarrow> u32 \<Rightarrow> u32 \<Rightarrow> bool" where
  "pulseElapsed now startedAt duration = (now - startedAt \<ge> duration)"

definition finishPulse :: "u32 \<Rightarrow> Globals \<Rightarrow> Globals" where
  "finishPulse now s =
     (if triggerInProgress s then
        (if pulseElapsed now (lastTriggerAt s) (triggerDurationMs (config s)) then
           s\<lparr>pinWrites := pinWrites s @
                [(triggerPin (config s), \<not> triggerActiveHigh (config s))],
             triggerInProgress := False\<rparr>
         else s)
      else s)"

section \<open>Interval handling\<close>

text \<open>
  The block "Interval handling" of \<open>loop\<close>. \<open>now\<close> is the reading of \<open>millis()\<close> in the
  branch taken (each branch reads it once), \<open>nowFire\<close> the reading inside \<open>triggerPulse\<close>.
  \<open>(long)(millis() - nextIntervalAt) >= 0\<close> reads the wrapped difference as signed.
\<close>

definition intervalDue :: "u32 \<Rightarrow> u32 \<Rightarrow> bool" where
  "intervalDue now deadline = (0 \<le> sint (now - deadline))"

definition intervalHandling :: "u32 \<Rightarrow> u32 \<Rightarrow> Globals \<Rightarrow> Globals" where
  "intervalHandling now nowFire s =
     (if intervalEnabled (config s) \<and> intervalSeconds (config s) > 0 then
        (if nextIntervalAt s = 0 then
           s\<lparr>nextIntervalAt := now + intervalSeconds (config s) * 1000\<rparr>
         else if intervalDue now (nextIntervalAt s) then
           (let s1 = triggerPulse nowFire s
            in s1\<lparr>nextIntervalAt := nextIntervalAt s1 + intervalSeconds (config s1) * 1000\<rparr>)
         else s)
      else s)"


section \<open>Daily schedule\<close>

text \<open>
  The fields of \<open>struct tm\<close> the sketch reads, and \<open>gmtime_r\<close> of the C library: the
  time of day by division, the day of the year (0 on 1 January) by the usual
  proleptic Gregorian computation on the day number.
\<close>

record tm =
  tm_sec :: int
  tm_min :: int
  tm_hour :: int
  tm_yday :: int

definition isLeapYear :: "int \<Rightarrow> bool" where
  "isLeapYear y = (y mod 4 = 0 \<and> (y mod 400 = 0 \<or> y mod 100 \<noteq> 0))"

definition dayOfYear :: "int \<Rightarrow> int" where
  "dayOfYear days =
     (let z = days + 719468;
          era = z div 146097;
          doe = z mod 146097;
          yoe = (doe - doe div 1460 + doe div 36524 - doe div 146096) div 365;
          doy = doe - (365 * yoe + yoe div 4 - yoe div 100)
      in if doy \<ge> 306 then doy - 306
         else doy + 59 + (if isLeapYear (yoe + era * 400) then 1 else 0))"

definition gmtime_r :: "int \<Rightarrow> tm" where
  "gmtime_r epoch =
     \<lparr> tm_sec = epoch mod 60,
       tm_min = (epoch mod 3600) div 60,
       tm_hour = (epoch mod 86400) div 3600,
       tm_yday = dayOfYear (epoch div 86400) \<rparr>"

text \<open>\<open>now_utc\<close> is the value \<open>time(nullptr)\<close> returns inside the function.\<close>

definition getLocalTimeBrokenDown :: "int \<Rightarrow> Globals \<Rightarrow> tm \<times> int" where
  "getLocalTimeBrokenDown now_utc s =
     (let epoch_local = now_utc + timezoneOffsetMinutes (config s) * 60
      in (gmtime_r epoch_local, epoch_local))"

definition resetScheduleFlagsForNewDay :: "tm \<Rightarrow> Globals \<Rightarrow> Globals" where
  "resetScheduleFlagsForNewDay tm_local s =
     s\<lparr>scheduleFiredToday := replicate (length (scheduleTimes (config s))) False,
       lastDayOfYear := tm_yday tm_local\<rparr>"

text \<open>The test "New day?" of \<open>loop\<close> and its branch.\<close>

definition newDayCheck :: "tm \<Rightarrow> Globals \<Rightarrow> Globals" where
  "newDayCheck tm_local s =
     (if tm_yday tm_local \<noteq> lastDayOfYear s then resetScheduleFlagsForNewDay tm_local s
      else s)"

text \<open>
  The body of the \<open>for\<close> loop over the schedule. \<open>scheduleFiredToday[i]\<close> is an
  unchecked \<open>std::vector\<close> access: where the index is outside the vector the C++ has no
  defined behaviour and the model returns \<open>None\<close>. As in the C++, the flag is read only
  when \<open>schedMin >= 0\<close>. \<open>tick i\<close> is the reading of \<open>millis()\<close> inside the call of
  \<open>triggerPulse\<close> for entry \<open>i\<close>.
\<close>

definition scheduleBody :: "(nat \<Rightarrow> u32) \<Rightarrow> int \<Rightarrow> nat \<Rightarrow> Globals \<Rightarrow> Globals option" where
  "scheduleBody tick currentMin i s =
     (let schedMin = parseTimeToMinutes (scheduleTimes (config s) ! i) in
      if schedMin \<ge> 0 then
        (if i < length (scheduleFiredToday s) then
           (if \<not> scheduleFiredToday s ! i \<and> schedMin = currentMin then
              (let s1 = triggerPulse (tick i) s
               in Some (s1\<lparr>scheduleFiredToday := (scheduleFiredToday s1)[i := True]\<rparr>))
            else Some s)
         else None)
      else Some s)"

text \<open>The \<open>for\<close> loop, as recursion over the indices still to visit.\<close>

fun scheduleLoop :: "(nat \<Rightarrow> u32) \<Rightarrow> int \<Rightarrow> nat list \<Rightarrow> Globals \<Rightarrow> Globals option" where
  "scheduleLoop tick currentMin [] s = Some s"
| "scheduleLoop tick currentMin (i # rest) s =
     (case scheduleBody tick currentMin i s of
        None \<Rightarrow> None
      | Some s1 \<Rightarrow> scheduleLoop tick currentMin rest s1)"

text \<open>
  The block "Schedule handling" of \<open>loop\<close>. \<open>now_utc\<close> is the reading of
  \<open>time(nullptr)\<close> in \<open>loop\<close>, \<open>now_utc2\<close> the one in \<open>getLocalTimeBrokenDown\<close>.
\<close>

definition scheduleHandling :: "int \<Rightarrow> int \<Rightarrow> (nat \<Rightarrow> u32) \<Rightarrow> Globals \<Rightarrow> Globals option" where
  "scheduleHandling now_utc now_utc2 tick s =
     (if now_utc \<noteq> lastTimeCheck s then
        (let s1 = s\<lparr>lastTimeCheck := now_utc\<rparr>;
             tm_local = fst (getLocalTimeBrokenDown now_utc2 s1);
             s2 = newDayCheck tm_local s1;
             currentMin = tm_hour tm_local * 60 + tm_min tm_local;
             sec = tm_sec tm_local
         in if sec = 0 then
              scheduleLoop tick currentMin [0..<length (scheduleTimes (config s2))] s2
            else Some s2)
      else Some s)"

section \<open>MQTT commands\<close>

text \<open>
  \<open>payload\<close> is the message as received; the topic only appears in the log line and is
  left out. \<open>now\<close> is the reading of \<open>millis()\<close> of the branch taken.
\<close>

definition mqttCallback :: "u32 \<Rightarrow> string \<Rightarrow> Globals \<Rightarrow> Globals" where
  "mqttCallback now payload s =
     (let msg = trim payload in
      if equalsIgnoreCase msg ''TRIGGER'' \<or> msg = ''1'' then triggerPulse now s
      else if startsWith msg ''INTERVAL:'' then
        (let sec = (word_of_int (toInt (substringFrom msg (length ''INTERVAL:''))) :: u32) in
         if sec > 0 then
           (let s1 = saveConfig
                       (s\<lparr>config := (config s)\<lparr>intervalSeconds := sec,
                                                 intervalEnabled := True\<rparr>\<rparr>)
            in s1\<lparr>nextIntervalAt := now + intervalSeconds (config s1) * 1000\<rparr>)
         else s)
      else if equalsIgnoreCase msg ''STOP_INTERVAL'' then
        saveConfig (s\<lparr>config := (config s)\<lparr>intervalEnabled := False\<rparr>\<rparr>)
      else if startsWith msg ''ADD_SCHEDULE:'' then
        (let t = trim (substringFrom msg (length ''ADD_SCHEDULE:'')) in
         if parseTimeToMinutes t \<ge> 0 then
           (let s1 = saveConfig
                       (s\<lparr>config := (config s)\<lparr>scheduleTimes :=
                                                   scheduleTimes (config s) @ [t]\<rparr>\<rparr>)
            in s1\<lparr>scheduleFiredToday :=
                    replicate (length (scheduleTimes (config s1))) False\<rparr>)
         else s)
      else if equalsIgnoreCase msg ''CLEAR_SCHEDULE'' then
        (let s1 = saveConfig (s\<lparr>config := (config s)\<lparr>scheduleTimes := []\<rparr>\<rparr>)
         in s1\<lparr>scheduleFiredToday := replicate 0 False\<rparr>)
      else s)"

section \<open>HTTP handlers\<close>

text \<open>
  A request is the list of its form arguments. A handler returns the new globals and
  the status code it sends (303 is the redirect after success).
\<close>

type_synonym request = "(string \<times> string) list"

definition hasArg :: "request \<Rightarrow> string \<Rightarrow> bool" where
  "hasArg req name = (case map_of req name of None \<Rightarrow> False | Some v \<Rightarrow> True)"

definition arg :: "request \<Rightarrow> string \<Rightarrow> string" where
  "arg req name = (case map_of req name of None \<Rightarrow> [] | Some v \<Rightarrow> v)"

definition handleTriggerPost :: "u32 \<Rightarrow> Globals \<Rightarrow> Globals \<times> nat" where
  "handleTriggerPost now s = (triggerPulse now s, 303)"

definition handleIntervalPost :: "u32 \<Rightarrow> request \<Rightarrow> Globals \<Rightarrow> Globals \<times> nat" where
  "handleIntervalPost now req s =
     (if \<not> hasArg req ''seconds'' then (s, 400)
      else
        let sec = (word_of_int (toInt (arg req ''seconds'')) :: u32);
            en = hasArg req ''enabled'';
            s1 = saveConfig
                   (s\<lparr>config := (config s)\<lparr>intervalSeconds := sec,
                                             intervalEnabled := (en \<and> sec > 0)\<rparr>\<rparr>);
            s2 = (if intervalEnabled (config s1) then
                    s1\<lparr>nextIntervalAt := now + intervalSeconds (config s1) * 1000\<rparr>
                  else s1)
        in (s2, 303))"

definition handleScheduleAdd :: "request \<Rightarrow> Globals \<Rightarrow> Globals \<times> nat" where
  "handleScheduleAdd req s =
     (if \<not> hasArg req ''time'' then (s, 400)
      else
        let t = arg req ''time'' in
        if parseTimeToMinutes t < 0 then (s, 400)
        else
          let s1 = saveConfig
                     (s\<lparr>config := (config s)\<lparr>scheduleTimes :=
                                                 scheduleTimes (config s) @ [t]\<rparr>\<rparr>)
          in (s1\<lparr>scheduleFiredToday :=
                   replicate (length (scheduleTimes (config s1))) False\<rparr>, 303))"

definition erase :: "'a list \<Rightarrow> nat \<Rightarrow> 'a list" where
  "erase xs i = take i xs @ drop (i + 1) xs"

definition handleScheduleRemove :: "request \<Rightarrow> Globals \<Rightarrow> Globals \<times> nat" where
  "handleScheduleRemove req s =
     (if \<not> hasArg req ''idx'' then (s, 400)
      else
        let idx = toInt (arg req ''idx'') in
        if idx < 0 \<or> nat idx \<ge> length (scheduleTimes (config s)) then (s, 400)
        else
          let s1 = saveConfig
                     (s\<lparr>config := (config s)\<lparr>scheduleTimes :=
                                                 erase (scheduleTimes (config s)) (nat idx)\<rparr>\<rparr>)
          in (s1\<lparr>scheduleFiredToday :=
                   replicate (length (scheduleTimes (config s1))) False\<rparr>, 303))"

section \<open>Setup and loop\<close>

definition applyTriggerPin :: "Globals \<Rightarrow> Globals" where
  "applyTriggerPin s =
     s\<lparr>pinWrites := pinWrites s @
          [(triggerPin (config s), \<not> triggerActiveHigh (config s))]\<rparr>"

text \<open>
  The start-up function of the sketch (named \<open>setupSketch\<close> here), without the network
  part: the configuration is loaded, the pin is driven to its inactive level, and the
  flags are sized to the loaded schedule.
\<close>

definition setupSketch :: "Globals \<Rightarrow> Globals" where
  "setupSketch s =
     (let s1 = applyTriggerPin (loadConfig s)
      in s1\<lparr>scheduleFiredToday := replicate (length (scheduleTimes (config s1))) False\<rparr>)"

text \<open>
  One iteration of \<open>loop\<close> after the web server and the MQTT client have been served
  (their requests are the handlers above): finish the pulse, handle the interval, handle
  the schedule. Every reading of a clock is a parameter.
\<close>

definition loop ::
  "u32 \<Rightarrow> u32 \<Rightarrow> u32 \<Rightarrow> int \<Rightarrow> int \<Rightarrow> (nat \<Rightarrow> u32) \<Rightarrow> Globals \<Rightarrow> Globals option" where
  "loop nowPulse nowInterval nowFire now_utc now_utc2 tick s =
     scheduleHandling now_utc now_utc2 tick
       (intervalHandling nowInterval nowFire (finishPulse nowPulse s))"

section \<open>Predicates used in the statements\<close>

text \<open>
  The schedule and its flags are aligned when the two vectors have the same length;
  the flags are fresh when, in addition, every flag is \<open>false\<close>.
\<close>

definition scheduleAligned :: "Globals \<Rightarrow> bool" where
  "scheduleAligned s = (length (scheduleFiredToday s) = length (scheduleTimes (config s)))"

definition flagsFresh :: "Globals \<Rightarrow> bool" where
  "flagsFresh s =
     (scheduleFiredToday s = replicate (length (scheduleTimes (config s))) False)"

text \<open>
  Entry \<open>i\<close> matches the minute \<open>currentMin\<close> when its time parses to that minute;
  it is due when it matches and its flag is not set. \<open>scheduleDue\<close> is the condition of
  the \<open>if\<close> in the loop over the schedule. \<open>localTime\<close> is the broken-down local time
  of a reading of the wall clock, \<open>minuteOfDay\<close> the value \<open>currentMin\<close> of \<open>loop\<close>.
\<close>

definition scheduleMatches :: "int \<Rightarrow> Globals \<Rightarrow> nat \<Rightarrow> bool" where
  "scheduleMatches currentMin s i =
     (let schedMin = parseTimeToMinutes (scheduleTimes (config s) ! i)
      in schedMin \<ge> 0 \<and> schedMin = currentMin)"

definition scheduleDue :: "int \<Rightarrow> Globals \<Rightarrow> nat \<Rightarrow> bool" where
  "scheduleDue currentMin s i =
     (let schedMin = parseTimeToMinutes (scheduleTimes (config s) ! i)
      in schedMin \<ge> 0 \<and> \<not> scheduleFiredToday s ! i \<and> schedMin = currentMin)"

definition localTime :: "int \<Rightarrow> Globals \<Rightarrow> tm" where
  "localTime now_utc s = fst (getLocalTimeBrokenDown now_utc s)"

definition minuteOfDay :: "tm \<Rightarrow> int" where
  "minuteOfDay t = tm_hour t * 60 + tm_min t"


text \<open>The relation between the two interval fields.\<close>

definition intervalInvariant :: "Globals \<Rightarrow> bool" where
  "intervalInvariant s = (intervalEnabled (config s) \<longrightarrow> intervalSeconds (config s) > 0)"


section \<open>Example states\<close>

definition intervalExample :: Globals where
  "intervalExample =
     initialGlobals\<lparr>config := defaultConfig\<lparr>intervalSeconds := 10, intervalEnabled := True\<rparr>,
                    nextIntervalAt := 20000\<rparr>"

definition scheduleExample :: Globals where
  "scheduleExample =
     initialGlobals\<lparr>config := defaultConfig\<lparr>scheduleTimes := [''07:00'', ''08:00'', ''09:00'']\<rparr>,
                    scheduleFiredToday := [True, False, True]\<rparr>"

definition duplicateExample :: Globals where
  "duplicateExample =
     initialGlobals\<lparr>config := defaultConfig\<lparr>scheduleTimes := [''08:00'', ''08:00'']\<rparr>,
                    scheduleFiredToday := [True, True],
                    lastDayOfYear := 316,
                    lastTimeCheck := 1699919999\<rparr>"


definition onceExample :: Globals where
  "onceExample =
     initialGlobals\<lparr>config := defaultConfig\<lparr>scheduleTimes := [''08:00'', ''12:30'']\<rparr>,
                    scheduleFiredToday := [False, False],
                    lastDayOfYear := 317,
                    lastTimeCheck := 1699948799\<rparr>"

definition firedExample :: Globals where
  "firedExample = onceExample\<lparr>scheduleFiredToday := [True, False]\<rparr>"


definition zeroPeriodDoc :: ConfigDoc where
  "zeroPeriodDoc =
     (docOfConfig defaultConfig)\<lparr>docIntervalSeconds := Some 0, docIntervalEnabled := Some True\<rparr>"

definition zeroPeriodStore :: Globals where
  "zeroPeriodStore = initialGlobals\<lparr>configFile := Some zeroPeriodDoc\<rparr>"

definition stoppedExample :: Globals where
  "stoppedExample = mqttCallback 21000 ''STOP_INTERVAL'' intervalExample"


definition rearmedExample :: Globals where
  "rearmedExample = mqttCallback 50000 ''INTERVAL:30'' stoppedExample"


section \<open>Basic facts\<close>

lemma saveConfig_fields [simp]:
  "config (saveConfig s) = config s"
  "scheduleFiredToday (saveConfig s) = scheduleFiredToday s"
  "nextIntervalAt (saveConfig s) = nextIntervalAt s"
  "triggerInProgress (saveConfig s) = triggerInProgress s"
  "lastTriggerAt (saveConfig s) = lastTriggerAt s"
  "pinWrites (saveConfig s) = pinWrites s"
  "lastTimeCheck (saveConfig s) = lastTimeCheck s"
  "lastDayOfYear (saveConfig s) = lastDayOfYear s"
  by (simp_all add: saveConfig_def)

lemma triggerPulse_schedule [simp]:
  "config (triggerPulse now s) = config s"
  "scheduleFiredToday (triggerPulse now s) = scheduleFiredToday s"
  by (simp_all add: triggerPulse_def)

section \<open>Properties of the pulse trigger\<close>

text \<open>
  C1. A call of \<open>triggerPulse\<close> while a pulse is in progress changes nothing. Hence two
  calls, the first one from the idle state, drive the pin once to the active level; the
  second call leaves the state of the first (whatever tick it reads), and the next
  \<open>finishPulse\<close> writes the inactive level exactly when \<open>triggerDurationMs\<close> has elapsed
  since the tick of the first call, giving one assert/deassert pair of writes.
\<close>

theorem triggerPulse_while_active_noop:
  "(triggerInProgress s \<longrightarrow> triggerPulse t s = s) \<and>
   (\<not> triggerInProgress s \<longrightarrow>
      triggerPulse t2 (triggerPulse t1 s) = triggerPulse t1 s \<and>
      lastTriggerAt (triggerPulse t2 (triggerPulse t1 s)) = t1 \<and>
      pinWrites (triggerPulse t2 (triggerPulse t1 s)) =
        pinWrites s @ [(triggerPin (config s), triggerActiveHigh (config s))] \<and>
      finishPulse now (triggerPulse t2 (triggerPulse t1 s)) =
        (if now - t1 \<ge> triggerDurationMs (config s) then
           (triggerPulse t1 s)\<lparr>pinWrites := pinWrites s @
               [(triggerPin (config s), triggerActiveHigh (config s)),
                (triggerPin (config s), \<not> triggerActiveHigh (config s))],
             triggerInProgress := False\<rparr>
         else triggerPulse t1 s))"
  by (simp add: triggerPulse_def finishPulse_def pulseElapsed_def)

theorem triggerPulse_while_active_noop_witness:
  "triggerPulse 1500 (triggerPulse 1000 initialGlobals) = triggerPulse 1000 initialGlobals \<and>
   pinWrites (triggerPulse 1500 (triggerPulse 1000 initialGlobals)) = [(5, True)] \<and>
   finishPulse 1999 (triggerPulse 1500 (triggerPulse 1000 initialGlobals)) =
     triggerPulse 1000 initialGlobals \<and>
   pinWrites (finishPulse 2000 (triggerPulse 1500 (triggerPulse 1000 initialGlobals))) =
     [(5, True), (5, False)] \<and>
   \<not> triggerInProgress (finishPulse 2000 (triggerPulse 1500 (triggerPulse 1000 initialGlobals)))"
  using triggerPulse_while_active_noop [of initialGlobals 0 1500 1000 1999]
        triggerPulse_while_active_noop [of initialGlobals 0 1500 1000 2000]
  unfolding initialGlobals_def defaultConfig_def triggerPulse_def finishPulse_def
    pulseElapsed_def
  by simp

section \<open>Properties of the interval handling\<close>

text \<open>
  C2. With the interval enabled, a positive period and an armed deadline (the value 0
  stands for "not armed"), a pass of the interval handling that finds the deadline due
  calls \<open>triggerPulse\<close> and moves the deadline to the previous deadline plus
  \<open>intervalSeconds * 1000\<close> (32-bit arithmetic). The new deadline does not depend on
  the tick at which the pass ran.
\<close>

theorem intervalHandling_rearms_from_deadline:
  assumes "intervalEnabled (config s)" and "intervalSeconds (config s) > 0"
    and "nextIntervalAt s \<noteq> 0" and "intervalDue now (nextIntervalAt s)"
  shows "intervalHandling now nowFire s =
           (triggerPulse nowFire s)
             \<lparr>nextIntervalAt := nextIntervalAt s + intervalSeconds (config s) * 1000\<rparr> \<and>
         nextIntervalAt (intervalHandling now nowFire s) =
           nextIntervalAt s + intervalSeconds (config s) * 1000"
  using assms by (simp add: intervalHandling_def triggerPulse_def)

text \<open>
  The witness is the example of the specification: a period of 10 s, the deadline
  20000 observed 3 s late at tick 23000; the next deadline is 30000, not 33000.
\<close>

theorem intervalHandling_rearms_from_deadline_witness:
  "intervalEnabled (config intervalExample) \<and> intervalSeconds (config intervalExample) > 0 \<and>
   nextIntervalAt intervalExample \<noteq> 0 \<and> intervalDue 23000 (nextIntervalAt intervalExample) \<and>
   nextIntervalAt (intervalHandling 23000 23000 intervalExample) = 30000 \<and>
   triggerInProgress (intervalHandling 23000 23000 intervalExample) \<and>
   pinWrites (intervalHandling 23000 23000 intervalExample) = [(5, True)]"
proof -
  have e: "intervalEnabled (config intervalExample)"
    and p: "intervalSeconds (config intervalExample) > 0"
    and a: "nextIntervalAt intervalExample \<noteq> 0"
    and d: "intervalDue 23000 (nextIntervalAt intervalExample)"
    by (simp_all add: intervalExample_def initialGlobals_def defaultConfig_def intervalDue_def)
  from intervalHandling_rearms_from_deadline [OF e p a d, of 23000] e p a d
  show ?thesis
    by (simp add: intervalExample_def initialGlobals_def defaultConfig_def triggerPulse_def)
qed

section \<open>Tick arithmetic across the wrap of the counter\<close>

lemma sint_word_of_int_small:
  assumes "- (2 ^ 31) \<le> k" and "k < 2 ^ 31"
  shows "sint (word_of_int k :: u32) = k"
proof -
  have "(k + 2 ^ 31) mod 2 ^ 32 = k + 2 ^ 31"
    using assms by (intro mod_pos_pos_trivial) simp_all
  then show ?thesis unfolding int_word_sint by simp
qed

lemma uint_word_of_int_small:
  assumes "0 \<le> k" and "k < 2 ^ 32"
  shows "uint (word_of_int k :: u32) = k"
  using assms by (simp add: uint_word_of_int take_bit_eq_mod)

lemma pulseElapsed_true_time:
  assumes "0 \<le> T1 - T0" and "T1 - T0 < 2 ^ 32"
  shows "pulseElapsed (word_of_int T1) (word_of_int T0) d \<longleftrightarrow> uint d \<le> T1 - T0"
proof -
  have "uint (word_of_int T1 - word_of_int T0 :: u32) = uint (word_of_int (T1 - T0) :: u32)"
    by simp
  also have "\<dots> = T1 - T0" using assms by (rule uint_word_of_int_small)
  finally show ?thesis unfolding pulseElapsed_def word_le_def by simp
qed

lemma intervalDue_true_time:
  assumes "- (2 ^ 31) \<le> T - D" and "T - D < 2 ^ 31"
  shows "intervalDue (word_of_int T) (word_of_int D) \<longleftrightarrow> D \<le> T"
proof -
  have "sint (word_of_int T - word_of_int D :: u32) = sint (word_of_int (T - D) :: u32)"
    by simp
  also have "\<dots> = T - D" using assms by (rule sint_word_of_int_small)
  finally show ?thesis unfolding intervalDue_def by simp
qed

text \<open>
  C9. Let \<open>T0\<close>, \<open>T1\<close>, \<open>T\<close>, \<open>D\<close> be times in milliseconds that never wrap (integers),
  and let the program see them as 32-bit ticks. If the pulse started at \<open>T0\<close> and less
  than \<open>2^32\<close> ms have passed at \<open>T1\<close>, the pulse test of \<open>loop\<close> holds exactly when the
  real elapsed time has reached the duration, whether or not the counter wrapped in
  between. If the tick \<open>T\<close> is within \<open>2^31\<close> ms of the deadline \<open>D\<close>, the interval
  test holds exactly when the deadline has really been reached. A plain comparison of
  the raw values gives another answer on some ticks.
\<close>

theorem tick_tests_wraparound_safe:
  "(0 \<le> T1 - T0 \<and> T1 - T0 < 2 ^ 32 \<longrightarrow>
      (pulseElapsed (word_of_int T1) (word_of_int T0) d \<longleftrightarrow> uint d \<le> T1 - T0)) \<and>
   (- (2 ^ 31) \<le> T - D \<and> T - D < 2 ^ 31 \<longrightarrow>
      (intervalDue (word_of_int T) (word_of_int D) \<longleftrightarrow> D \<le> T)) \<and>
   (\<exists>now startedAt duration.
      pulseElapsed now startedAt duration \<and> \<not> startedAt + duration \<le> now) \<and>
   (\<exists>now deadline. intervalDue now deadline \<and> \<not> deadline \<le> now)"
proof (intro conjI impI)
  show "\<exists>now startedAt duration.
      pulseElapsed now startedAt duration \<and> \<not> startedAt + duration \<le> now"
  proof (intro exI conjI)
    show "pulseElapsed 50 4294967000 (100 :: u32)" by (simp add: pulseElapsed_def)
    show "\<not> (4294967000 :: u32) + 100 \<le> 50" by simp
  qed
  show "\<exists>now deadline. intervalDue now deadline \<and> \<not> deadline \<le> now"
  proof (intro exI conjI)
    show "intervalDue 50 4294967196" by (simp add: intervalDue_def)
    show "\<not> (4294967196 :: u32) \<le> 50" by simp
  qed
qed (simp_all add: pulseElapsed_true_time intervalDue_true_time)

text \<open>
  The witness: a pulse started 100 ms before the wrap and looked at 50 ms after it
  (150 ms elapsed), and a deadline 100 ms before the wrap seen from 50 ms after it, and
  the other way round.
\<close>

theorem tick_tests_wraparound_safe_witness:
  "pulseElapsed 50 4294967196 100 \<and> \<not> pulseElapsed 50 4294967196 151 \<and>
   intervalDue 50 4294967196 \<and> \<not> intervalDue 4294967196 50"
  using tick_tests_wraparound_safe [of 4294967346 4294967196 100 4294967346 4294967196]
        tick_tests_wraparound_safe [of 4294967346 4294967196 151 4294967196 4294967346]
  by (simp add: pulseElapsed_def intervalDue_def)

section \<open>Mutations of the schedule\<close>

lemma startsWith_append:
  assumes "startsWith msg p"
  obtains r where "msg = p @ r"
  using assms by (metis append_take_drop_id startsWith_def)

lemma add_schedule_not_earlier:
  assumes "startsWith msg ''ADD_SCHEDULE:''"
  shows "\<not> equalsIgnoreCase msg ''TRIGGER''" and "msg \<noteq> ''1''"
    and "\<not> startsWith msg ''INTERVAL:''" and "\<not> equalsIgnoreCase msg ''STOP_INTERVAL''"
proof -
  from assms obtain r where m: "msg = ''ADD_SCHEDULE:'' @ r" by (rule startsWith_append)
  show "\<not> equalsIgnoreCase msg ''TRIGGER''" by (simp add: m equalsIgnoreCase_def)
  show "msg \<noteq> ''1''" by (simp add: m)
  show "\<not> startsWith msg ''INTERVAL:''" by (simp add: m startsWith_def)
  show "\<not> equalsIgnoreCase msg ''STOP_INTERVAL''"
    by (simp add: m equalsIgnoreCase_def isUpper_def)
qed

lemma clear_schedule_not_earlier:
  assumes "equalsIgnoreCase msg ''CLEAR_SCHEDULE''"
  shows "\<not> equalsIgnoreCase msg ''TRIGGER''" and "msg \<noteq> ''1''"
    and "\<not> startsWith msg ''INTERVAL:''" and "\<not> equalsIgnoreCase msg ''STOP_INTERVAL''"
    and "\<not> startsWith msg ''ADD_SCHEDULE:''"
proof -
  from assms have len: "length msg = 14" and low: "map toLowerCase msg = ''clear_schedule''"
    by (simp_all add: equalsIgnoreCase_def isUpper_def)
  show "\<not> equalsIgnoreCase msg ''TRIGGER''" using len by (simp add: equalsIgnoreCase_def)
  show "msg \<noteq> ''1''" using len by auto
  show "\<not> equalsIgnoreCase msg ''STOP_INTERVAL''" using len by (simp add: equalsIgnoreCase_def)
  show "\<not> startsWith msg ''INTERVAL:''"
  proof
    assume "startsWith msg ''INTERVAL:''"
    then obtain r where "msg = ''INTERVAL:'' @ r" by (rule startsWith_append)
    with low show False by (simp add: isUpper_def)
  qed
  show "\<not> startsWith msg ''ADD_SCHEDULE:''"
  proof
    assume "startsWith msg ''ADD_SCHEDULE:''"
    then obtain r where "msg = ''ADD_SCHEDULE:'' @ r" by (rule startsWith_append)
    with low show False by (simp add: isUpper_def)
  qed
qed

lemma mqtt_add_schedule:
  "startsWith (trim payload) ''ADD_SCHEDULE:'' \<and>
    0 \<le> parseTimeToMinutes (trim (substringFrom (trim payload) (length ''ADD_SCHEDULE:''))) \<longrightarrow>
      scheduleTimes (config (mqttCallback now payload s)) =
        scheduleTimes (config s) @
          [trim (substringFrom (trim payload) (length ''ADD_SCHEDULE:''))] \<and>
      flagsFresh (mqttCallback now payload s)"
proof (intro impI, elim conjE)
  assume p: "startsWith (trim payload) ''ADD_SCHEDULE:''"
    and v: "0 \<le> parseTimeToMinutes
                   (trim (substringFrom (trim payload) (length ''ADD_SCHEDULE:'')))"
  from v add_schedule_not_earlier [OF p] p
  show "scheduleTimes (config (mqttCallback now payload s)) =
        scheduleTimes (config s) @
          [trim (substringFrom (trim payload) (length ''ADD_SCHEDULE:''))] \<and>
      flagsFresh (mqttCallback now payload s)"
    by (simp add: mqttCallback_def Let_def flagsFresh_def)
qed

lemma mqtt_clear_schedule:
  "equalsIgnoreCase (trim payload) ''CLEAR_SCHEDULE'' \<longrightarrow>
      scheduleTimes (config (mqttCallback now payload s)) = [] \<and>
      scheduleFiredToday (mqttCallback now payload s) = []"
proof
  assume c: "equalsIgnoreCase (trim payload) ''CLEAR_SCHEDULE''"
  from c clear_schedule_not_earlier [OF c]
  show "scheduleTimes (config (mqttCallback now payload s)) = [] \<and>
      scheduleFiredToday (mqttCallback now payload s) = []"
    by (simp add: mqttCallback_def Let_def)
qed

lemma mqttCallback_aligned:
  "scheduleAligned s \<Longrightarrow> scheduleAligned (mqttCallback now payload s)"
  by (simp add: mqttCallback_def scheduleAligned_def Let_def)

lemma handleScheduleAdd_accepted:
  "snd (handleScheduleAdd req s) = 303 \<longrightarrow>
      scheduleTimes (config (fst (handleScheduleAdd req s))) =
        scheduleTimes (config s) @ [arg req ''time''] \<and>
      flagsFresh (fst (handleScheduleAdd req s))"
  by (simp add: handleScheduleAdd_def Let_def flagsFresh_def)

lemma handleScheduleAdd_rejected:
  "snd (handleScheduleAdd req s) \<noteq> 303 \<Longrightarrow> fst (handleScheduleAdd req s) = s"
  by (cases "hasArg req ''time''"; cases "parseTimeToMinutes (arg req ''time'') < 0")
     (simp_all add: handleScheduleAdd_def Let_def)

lemma length_erase: "i < length xs \<Longrightarrow> length (erase xs i) + 1 = length xs"
  by (simp add: erase_def)

lemma handleScheduleRemove_accepted:
  "snd (handleScheduleRemove req s) = 303 \<longrightarrow>
      scheduleTimes (config (fst (handleScheduleRemove req s))) =
        erase (scheduleTimes (config s)) (nat (toInt (arg req ''idx''))) \<and>
      length (scheduleTimes (config (fst (handleScheduleRemove req s)))) + 1 =
        length (scheduleTimes (config s)) \<and>
      flagsFresh (fst (handleScheduleRemove req s))"
  using length_erase [of "nat (toInt (arg req ''idx''))" "scheduleTimes (config s)"]
  by (simp add: handleScheduleRemove_def Let_def flagsFresh_def)

lemma handleScheduleRemove_rejected:
  "snd (handleScheduleRemove req s) \<noteq> 303 \<Longrightarrow> fst (handleScheduleRemove req s) = s"
  by (cases "hasArg req ''idx''";
      cases "toInt (arg req ''idx'') < 0 \<or>
             nat (toInt (arg req ''idx'')) \<ge> length (scheduleTimes (config s))")
     (simp_all add: handleScheduleRemove_def Let_def)

lemma flagsFresh_aligned: "flagsFresh s \<Longrightarrow> scheduleAligned s"
  by (simp add: flagsFresh_def scheduleAligned_def)

lemma handlers_aligned:
  "scheduleAligned s \<longrightarrow>
      scheduleAligned (mqttCallback now payload s) \<and>
      scheduleAligned (fst (handleScheduleAdd req s)) \<and>
      scheduleAligned (fst (handleScheduleRemove req s))"
proof (intro conjI impI)
  assume a: "scheduleAligned s"
  show "scheduleAligned (mqttCallback now payload s)" using a by (rule mqttCallback_aligned)
  show "scheduleAligned (fst (handleScheduleAdd req s))"
  proof (cases "snd (handleScheduleAdd req s) = 303")
    case True
    with handleScheduleAdd_accepted [of req s] show ?thesis by (simp add: flagsFresh_aligned)
  next
    case False
    then show ?thesis using a by (simp add: handleScheduleAdd_rejected)
  qed
  show "scheduleAligned (fst (handleScheduleRemove req s))"
  proof (cases "snd (handleScheduleRemove req s) = 303")
    case True
    with handleScheduleRemove_accepted [of req s] show ?thesis by (simp add: flagsFresh_aligned)
  next
    case False
    then show ?thesis using a by (simp add: handleScheduleRemove_rejected)
  qed
qed

text \<open>
  C4. Each operation that changes the schedule rebuilds the flags in the same call:
  after an accepted \<open>ADD_SCHEDULE\<close> or a \<open>CLEAR_SCHEDULE\<close> message, an accepted HTTP
  add (status 303) or an accepted HTTP remove (status 303), the flag vector has the
  length of the new schedule and every flag is \<open>false\<close>. A rejected request leaves the
  state as it was, so no call of these handlers turns aligned vectors into vectors of
  different lengths.
\<close>

theorem schedule_mutations_rebuild_flags:
  "(startsWith (trim payload) ''ADD_SCHEDULE:'' \<and>
    0 \<le> parseTimeToMinutes (trim (substringFrom (trim payload) (length ''ADD_SCHEDULE:''))) \<longrightarrow>
      scheduleTimes (config (mqttCallback now payload s)) =
        scheduleTimes (config s) @
          [trim (substringFrom (trim payload) (length ''ADD_SCHEDULE:''))] \<and>
      flagsFresh (mqttCallback now payload s)) \<and>
   (equalsIgnoreCase (trim payload) ''CLEAR_SCHEDULE'' \<longrightarrow>
      scheduleTimes (config (mqttCallback now payload s)) = [] \<and>
      scheduleFiredToday (mqttCallback now payload s) = []) \<and>
   (snd (handleScheduleAdd req s) = 303 \<longrightarrow>
      scheduleTimes (config (fst (handleScheduleAdd req s))) =
        scheduleTimes (config s) @ [arg req ''time''] \<and>
      flagsFresh (fst (handleScheduleAdd req s))) \<and>
   (snd (handleScheduleRemove req s) = 303 \<longrightarrow>
      scheduleTimes (config (fst (handleScheduleRemove req s))) =
        erase (scheduleTimes (config s)) (nat (toInt (arg req ''idx''))) \<and>
      length (scheduleTimes (config (fst (handleScheduleRemove req s)))) + 1 =
        length (scheduleTimes (config s)) \<and>
      flagsFresh (fst (handleScheduleRemove req s))) \<and>
   (scheduleAligned s \<longrightarrow>
      scheduleAligned (mqttCallback now payload s) \<and>
      scheduleAligned (fst (handleScheduleAdd req s)) \<and>
      scheduleAligned (fst (handleScheduleRemove req s)))"
  by (intro conjI mqtt_add_schedule mqtt_clear_schedule handleScheduleAdd_accepted
      handleScheduleRemove_accepted handlers_aligned)

text \<open>
  The witness: removing index 1 of three entries, adding \<open>08:05\<close> by HTTP and by MQTT,
  and clearing the schedule (written in lower case), from a state with flags set.
\<close>

theorem schedule_mutations_rebuild_flags_witness:
  "scheduleAligned scheduleExample \<and>
   snd (handleScheduleRemove [(''idx'', ''1'')] scheduleExample) = 303 \<and>
   scheduleTimes (config (fst (handleScheduleRemove [(''idx'', ''1'')] scheduleExample))) =
     [''07:00'', ''09:00''] \<and>
   scheduleFiredToday (fst (handleScheduleRemove [(''idx'', ''1'')] scheduleExample)) =
     [False, False] \<and>
   snd (handleScheduleAdd [(''time'', ''08:05'')] scheduleExample) = 303 \<and>
   scheduleTimes (config (fst (handleScheduleAdd [(''time'', ''08:05'')] scheduleExample))) =
     [''07:00'', ''08:00'', ''09:00'', ''08:05''] \<and>
   scheduleFiredToday (fst (handleScheduleAdd [(''time'', ''08:05'')] scheduleExample)) =
     [False, False, False, False] \<and>
   scheduleTimes (config (mqttCallback 0 ''ADD_SCHEDULE:08:05'' scheduleExample)) =
     [''07:00'', ''08:00'', ''09:00'', ''08:05''] \<and>
   scheduleFiredToday (mqttCallback 0 ''ADD_SCHEDULE:08:05'' scheduleExample) =
     [False, False, False, False] \<and>
   scheduleTimes (config (mqttCallback 0 ''clear_schedule'' scheduleExample)) = [] \<and>
   scheduleFiredToday (mqttCallback 0 ''clear_schedule'' scheduleExample) = []"
proof -
  have al: "scheduleAligned scheduleExample"
    by (simp add: scheduleAligned_def scheduleExample_def initialGlobals_def defaultConfig_def)
  have rm: "snd (handleScheduleRemove [(''idx'', ''1'')] scheduleExample) = 303" by code_simp
  have ad: "snd (handleScheduleAdd [(''time'', ''08:05'')] scheduleExample) = 303" by code_simp
  have pa: "startsWith (trim ''ADD_SCHEDULE:08:05'') ''ADD_SCHEDULE:'' \<and>
    0 \<le> parseTimeToMinutes
          (trim (substringFrom (trim ''ADD_SCHEDULE:08:05'') (length ''ADD_SCHEDULE:'')))"
    by code_simp
  have ta: "trim (substringFrom (trim ''ADD_SCHEDULE:08:05'') (length ''ADD_SCHEDULE:'')) = ''08:05''"
    by code_simp
  have cl: "equalsIgnoreCase (trim ''clear_schedule'') ''CLEAR_SCHEDULE''" by code_simp
  have er: "erase [''07:00'', ''08:00'', ''09:00''] (nat (toInt (arg [(''idx'', ''1'')] ''idx'')))
     = [''07:00'', ''09:00'']" by code_simp
  have ar: "arg [(''time'', ''08:05'')] ''time'' = ''08:05''" by code_simp
  have st: "scheduleTimes (config scheduleExample) = [''07:00'', ''08:00'', ''09:00'']"
    by (simp add: scheduleExample_def initialGlobals_def defaultConfig_def)
  note t1 = schedule_mutations_rebuild_flags
      [of "''ADD_SCHEDULE:08:05''" 0 scheduleExample "[(''time'', ''08:05'')]"]
  note t2 = schedule_mutations_rebuild_flags
      [of "''clear_schedule''" 0 scheduleExample "[(''idx'', ''1'')]"]
  from t1 pa ta ad ar st have A:
    "scheduleTimes (config (mqttCallback 0 ''ADD_SCHEDULE:08:05'' scheduleExample)) =
       [''07:00'', ''08:00'', ''09:00'', ''08:05'']"
    "flagsFresh (mqttCallback 0 ''ADD_SCHEDULE:08:05'' scheduleExample)"
    "scheduleTimes (config (fst (handleScheduleAdd [(''time'', ''08:05'')] scheduleExample))) =
       [''07:00'', ''08:00'', ''09:00'', ''08:05'']"
    "flagsFresh (fst (handleScheduleAdd [(''time'', ''08:05'')] scheduleExample))"
    by simp_all
  from t2 cl rm er st have B:
    "scheduleTimes (config (mqttCallback 0 ''clear_schedule'' scheduleExample)) = []"
    "scheduleFiredToday (mqttCallback 0 ''clear_schedule'' scheduleExample) = []"
    "scheduleTimes (config (fst (handleScheduleRemove [(''idx'', ''1'')] scheduleExample))) =
       [''07:00'', ''09:00'']"
    "flagsFresh (fst (handleScheduleRemove [(''idx'', ''1'')] scheduleExample))"
    by simp_all
  from al rm ad A B show ?thesis by (simp add: flagsFresh_def)
qed

section \<open>The loop over the schedule\<close>

lemma scheduleDue_iff:
  "scheduleDue cm s i \<longleftrightarrow> scheduleMatches cm s i \<and> \<not> scheduleFiredToday s ! i"
  by (auto simp add: scheduleDue_def scheduleMatches_def Let_def)

lemma scheduleBody_Some:
  assumes "scheduleBody tick cm i s = Some s1"
  shows "s1 = (if scheduleDue cm s i then
                 (triggerPulse (tick i) s)\<lparr>scheduleFiredToday := (scheduleFiredToday s)[i := True]\<rparr>
               else s)"
    and "scheduleMatches cm s i \<Longrightarrow> i < length (scheduleFiredToday s)"
  using assms
  by (auto simp add: scheduleBody_def scheduleDue_def scheduleMatches_def Let_def
      split: if_splits)

lemma scheduleBody_total:
  assumes "i < length (scheduleFiredToday s)"
  shows "\<exists>s1. scheduleBody tick cm i s = Some s1"
  using assms by (simp add: scheduleBody_def Let_def)

lemma scheduleBody_not_due:
  assumes "i < length (scheduleFiredToday s)"
    and "scheduleMatches cm s i \<Longrightarrow> scheduleFiredToday s ! i"
  shows "scheduleBody tick cm i s = Some s"
  using assms by (auto simp add: scheduleBody_def scheduleMatches_def Let_def)

lemma scheduleBody_frame:
  assumes "scheduleBody tick cm i s = Some s1"
  shows "config s1 = config s" and "length (scheduleFiredToday s1) = length (scheduleFiredToday s)"
    and "lastTimeCheck s1 = lastTimeCheck s" and "lastDayOfYear s1 = lastDayOfYear s"
    and "nextIntervalAt s1 = nextIntervalAt s"
  using scheduleBody_Some(1) [OF assms] by (simp_all add: triggerPulse_def)

lemma scheduleMatches_config:
  "config s1 = config s \<Longrightarrow> scheduleMatches cm s1 i = scheduleMatches cm s i"
  by (simp add: scheduleMatches_def)

lemma scheduleLoop_frame:
  "scheduleLoop tick cm idxs s = Some s' \<Longrightarrow>
     config s' = config s \<and> length (scheduleFiredToday s') = length (scheduleFiredToday s) \<and>
     lastTimeCheck s' = lastTimeCheck s \<and> lastDayOfYear s' = lastDayOfYear s \<and>
     nextIntervalAt s' = nextIntervalAt s"
proof (induction idxs arbitrary: s)
  case Nil
  then show ?case by simp
next
  case (Cons i rest)
  from Cons.prems obtain s1 where b: "scheduleBody tick cm i s = Some s1"
    and l: "scheduleLoop tick cm rest s1 = Some s'"
    by (auto split: option.splits)
  from Cons.IH [OF l] scheduleBody_frame [OF b] show ?case by simp
qed

lemma scheduleLoop_total:
  "\<forall>i\<in>set idxs. i < length (scheduleFiredToday s) \<Longrightarrow>
     \<exists>s'. scheduleLoop tick cm idxs s = Some s'"
proof (induction idxs arbitrary: s)
  case Nil
  then show ?case by simp
next
  case (Cons i rest)
  then obtain s1 where b: "scheduleBody tick cm i s = Some s1"
    using scheduleBody_total [of i s tick cm] by auto
  with Cons.prems scheduleBody_frame(2) [OF b]
  have "\<forall>k\<in>set rest. k < length (scheduleFiredToday s1)" by simp
  from Cons.IH [OF this] b show ?case by simp
qed

lemma scheduleLoop_flags:
  "scheduleLoop tick cm idxs s = Some s' \<Longrightarrow> j < length (scheduleFiredToday s) \<Longrightarrow>
     scheduleFiredToday s' ! j =
       (scheduleFiredToday s ! j \<or> (j \<in> set idxs \<and> scheduleMatches cm s j))"
proof (induction idxs arbitrary: s)
  case Nil
  then show ?case by simp
next
  case (Cons i rest)
  from Cons.prems(1) obtain s1 where b: "scheduleBody tick cm i s = Some s1"
    and l: "scheduleLoop tick cm rest s1 = Some s'"
    by (auto split: option.splits)
  note fr = scheduleBody_frame [OF b]
  have j1: "j < length (scheduleFiredToday s1)" using Cons.prems(2) fr(2) by simp
  have ih: "scheduleFiredToday s' ! j =
       (scheduleFiredToday s1 ! j \<or> (j \<in> set rest \<and> scheduleMatches cm s j))"
    using Cons.IH [OF l j1] scheduleMatches_config [OF fr(1)] by simp
  have s1j: "scheduleFiredToday s1 ! j = (scheduleFiredToday s ! j \<or> (j = i \<and> scheduleMatches cm s j))"
    using scheduleBody_Some(1) [OF b] Cons.prems(2)
    by (cases "j = i") (auto simp add: scheduleDue_iff)
  from ih s1j show ?case by auto
qed

lemma scheduleLoop_no_due:
  "\<forall>i\<in>set idxs. i < length (scheduleFiredToday s) \<and>
        (scheduleMatches cm s i \<longrightarrow> scheduleFiredToday s ! i) \<Longrightarrow>
     scheduleLoop tick cm idxs s = Some s"
proof (induction idxs)
  case Nil
  then show ?case by simp
next
  case (Cons i rest)
  then have "scheduleBody tick cm i s = Some s" by (intro scheduleBody_not_due) simp_all
  with Cons show ?case by simp
qed

lemma scheduleLoop_pulse:
  "scheduleLoop tick cm idxs s = Some s' \<Longrightarrow>
     triggerInProgress s' = (triggerInProgress s \<or> (\<exists>k\<in>set idxs. scheduleDue cm s k)) \<and>
     pinWrites s' =
       (if \<not> triggerInProgress s \<and> (\<exists>k\<in>set idxs. scheduleDue cm s k) then
          pinWrites s @ [(triggerPin (config s), triggerActiveHigh (config s))]
        else pinWrites s)"
proof (induction idxs arbitrary: s)
  case Nil
  then show ?case by simp
next
  case (Cons i rest)
  from Cons.prems(1) obtain s1 where b: "scheduleBody tick cm i s = Some s1"
    and l: "scheduleLoop tick cm rest s1 = Some s'"
    by (auto split: option.splits)
  note ih = Cons.IH [OF l]
  show ?case
  proof (cases "scheduleDue cm s i")
    case True
    with scheduleBody_Some(1) [OF b]
    have s1: "s1 = (triggerPulse (tick i) s)\<lparr>scheduleFiredToday := (scheduleFiredToday s)[i := True]\<rparr>"
      by simp
    have tip: "triggerInProgress s1" by (simp add: s1 triggerPulse_def)
    have pw: "pinWrites s1 = (if triggerInProgress s then pinWrites s
        else pinWrites s @ [(triggerPin (config s), triggerActiveHigh (config s))])"
      by (simp add: s1 triggerPulse_def)
    from ih tip pw True show ?thesis by simp
  next
    case False
    with scheduleBody_Some(1) [OF b] have "s1 = s" by simp
    with ih False show ?thesis by simp
  qed
qed

section \<open>One pass of the schedule handling\<close>

lemma localTime_lastTimeCheck [simp]:
  "localTime u (s\<lparr>lastTimeCheck := t\<rparr>) = localTime u s"
  by (simp add: localTime_def getLocalTimeBrokenDown_def)

lemma newDayCheck_fields [simp]:
  "config (newDayCheck t s) = config s"
  "lastTimeCheck (newDayCheck t s) = lastTimeCheck s"
  "triggerInProgress (newDayCheck t s) = triggerInProgress s"
  "pinWrites (newDayCheck t s) = pinWrites s"
  "lastDayOfYear (newDayCheck t s) = tm_yday t"
  by (simp_all add: newDayCheck_def resetScheduleFlagsForNewDay_def)

lemma newDayCheck_lastTimeCheck:
  "newDayCheck t (s\<lparr>lastTimeCheck := u\<rparr>) = (newDayCheck t s)\<lparr>lastTimeCheck := u\<rparr>"
  by (simp add: newDayCheck_def resetScheduleFlagsForNewDay_def)

lemma newDayCheck_aligned:
  "scheduleAligned s \<Longrightarrow> scheduleAligned (newDayCheck t s)"
  by (simp add: newDayCheck_def resetScheduleFlagsForNewDay_def scheduleAligned_def)

lemma newDayCheck_new_day:
  "tm_yday t \<noteq> lastDayOfYear s \<Longrightarrow> newDayCheck t s = resetScheduleFlagsForNewDay t s"
  by (simp add: newDayCheck_def)

lemma newDayCheck_same_day:
  "tm_yday t = lastDayOfYear s \<Longrightarrow> newDayCheck t s = s"
  by (simp add: newDayCheck_def)

lemma resetScheduleFlagsForNewDay_fresh:
  "flagsFresh (resetScheduleFlagsForNewDay t s)"
  "lastDayOfYear (resetScheduleFlagsForNewDay t s) = tm_yday t"
  by (simp_all add: resetScheduleFlagsForNewDay_def flagsFresh_def)

lemma scheduleHandling_same_second:
  "now_utc = lastTimeCheck s \<Longrightarrow> scheduleHandling now_utc now_utc2 tick s = Some s"
  by (simp add: scheduleHandling_def)

lemma scheduleHandling_pass:
  assumes "now_utc \<noteq> lastTimeCheck s"
  shows "scheduleHandling now_utc now_utc2 tick s =
     (if tm_sec (localTime now_utc2 s) = 0 then
        scheduleLoop tick (minuteOfDay (localTime now_utc2 s))
          [0..<length (scheduleTimes (config s))]
          ((newDayCheck (localTime now_utc2 s) s)\<lparr>lastTimeCheck := now_utc\<rparr>)
      else Some ((newDayCheck (localTime now_utc2 s) s)\<lparr>lastTimeCheck := now_utc\<rparr>))"
  using assms
  by (simp add: scheduleHandling_def Let_def newDayCheck_lastTimeCheck minuteOfDay_def
      localTime_def [symmetric])

lemma scheduleHandling_lastTimeCheck:
  assumes "scheduleHandling now_utc now_utc2 tick s = Some s'"
  shows "lastTimeCheck s' = now_utc"
proof (cases "now_utc = lastTimeCheck s")
  case True
  with assms show ?thesis by (simp add: scheduleHandling_same_second)
next
  case False
  from assms scheduleHandling_pass [OF False] show ?thesis
    by (auto split: if_splits dest: scheduleLoop_frame)
qed

lemma mid_matches [simp]:
  "scheduleMatches cm ((newDayCheck t s)\<lparr>lastTimeCheck := u\<rparr>) i = scheduleMatches cm s i"
  by (simp add: scheduleMatches_def)

lemma mid_due [simp]:
  "scheduleDue cm (m\<lparr>lastTimeCheck := u\<rparr>) i = scheduleDue cm m i"
  by (simp add: scheduleDue_def)

lemma scheduleHandling_aligned_result:
  assumes p: "now_utc \<noteq> lastTimeCheck s"
    and al: "scheduleAligned (newDayCheck (localTime now_utc2 s) s)"
  shows "\<exists>s'. scheduleHandling now_utc now_utc2 tick s = Some s' \<and>
      config s' = config s \<and> scheduleAligned s' \<and>
      lastTimeCheck s' = now_utc \<and>
      lastDayOfYear s' = tm_yday (localTime now_utc2 s) \<and>
      (\<forall>i < length (scheduleTimes (config s)).
         scheduleFiredToday s' ! i =
           (scheduleFiredToday (newDayCheck (localTime now_utc2 s) s) ! i \<or>
            (tm_sec (localTime now_utc2 s) = 0 \<and>
             scheduleMatches (minuteOfDay (localTime now_utc2 s)) s i))) \<and>
      triggerInProgress s' =
        (triggerInProgress s \<or>
         (tm_sec (localTime now_utc2 s) = 0 \<and>
          (\<exists>i < length (scheduleTimes (config s)).
             scheduleDue (minuteOfDay (localTime now_utc2 s))
               (newDayCheck (localTime now_utc2 s) s) i))) \<and>
      pinWrites s' =
        (if \<not> triggerInProgress s \<and> tm_sec (localTime now_utc2 s) = 0 \<and>
            (\<exists>i < length (scheduleTimes (config s)).
               scheduleDue (minuteOfDay (localTime now_utc2 s))
                 (newDayCheck (localTime now_utc2 s) s) i)
         then pinWrites s @ [(triggerPin (config s), triggerActiveHigh (config s))]
         else pinWrites s)"
proof -
  define t where "t = localTime now_utc2 s"
  define mid where "mid = (newDayCheck t s)\<lparr>lastTimeCheck := now_utc\<rparr>"
  define n where "n = length (scheduleTimes (config s))"
  have len: "length (scheduleFiredToday mid) = n"
    using al by (simp add: mid_def t_def n_def scheduleAligned_def)
  have midf: "config mid = config s" "lastTimeCheck mid = now_utc" "lastDayOfYear mid = tm_yday t"
    "triggerInProgress mid = triggerInProgress s" "pinWrites mid = pinWrites s"
    "scheduleFiredToday mid = scheduleFiredToday (newDayCheck t s)"
    by (simp_all add: mid_def)
  show ?thesis
  proof (cases "tm_sec t = 0")
    case False
    with scheduleHandling_pass [OF p, of now_utc2 tick]
    have "scheduleHandling now_utc now_utc2 tick s = Some mid"
      by (simp add: mid_def t_def)
    with False midf len show ?thesis
      by (simp add: t_def [symmetric] n_def [symmetric] scheduleAligned_def)
  next
    case True
    have "\<forall>i\<in>set [0..<n]. i < length (scheduleFiredToday mid)" using len by simp
    from scheduleLoop_total [OF this]
    obtain s' where l: "scheduleLoop tick (minuteOfDay t) [0..<n] mid = Some s'" by blast
    with True scheduleHandling_pass [OF p, of now_utc2 tick]
    have r: "scheduleHandling now_utc now_utc2 tick s = Some s'"
      by (simp add: mid_def t_def n_def)
    note fr = scheduleLoop_frame [OF l]
    have fl: "\<forall>i<n. scheduleFiredToday s' ! i =
           (scheduleFiredToday (newDayCheck t s) ! i \<or> scheduleMatches (minuteOfDay t) s i)"
      using scheduleLoop_flags [OF l] len by (simp add: mid_def)
    have ex: "(\<exists>k\<in>set [0..<n]. scheduleDue (minuteOfDay t) mid k) =
              (\<exists>i<n. scheduleDue (minuteOfDay t) (newDayCheck t s) i)"
      by (auto simp add: mid_def)
    note pu = scheduleLoop_pulse [OF l, unfolded ex midf]
    from r fr fl pu True midf len show ?thesis
      by (simp add: t_def [symmetric] n_def [symmetric] scheduleAligned_def)
  qed
qed

text \<open>
  C3. In a pass of the schedule handling that runs (the second differs from
  \<open>lastTimeCheck\<close>) and finds a day of the year other than \<open>lastDayOfYear\<close>, the flags
  are first replaced by all-\<open>false\<close> flags of the length of the schedule and
  \<open>lastDayOfYear\<close> is set; the firing loop of the same pass runs on that state. The pass
  returns, and afterwards the flag of entry \<open>i\<close> is set exactly if the local second is 0
  and the entry matches the local minute, whatever the flags were before: flags left
  from the previous day do not keep an entry, or a duplicate of it, from firing.
\<close>

theorem new_day_resets_flags_before_firing:
  assumes "now_utc \<noteq> lastTimeCheck s"
    and "tm_yday (localTime now_utc2 s) \<noteq> lastDayOfYear s"
  shows "flagsFresh (resetScheduleFlagsForNewDay (localTime now_utc2 s) s) \<and>
     lastDayOfYear (resetScheduleFlagsForNewDay (localTime now_utc2 s) s) =
       tm_yday (localTime now_utc2 s) \<and>
     scheduleHandling now_utc now_utc2 tick s =
       (if tm_sec (localTime now_utc2 s) = 0 then
          scheduleLoop tick (minuteOfDay (localTime now_utc2 s))
            [0..<length (scheduleTimes (config s))]
            ((resetScheduleFlagsForNewDay (localTime now_utc2 s) s)\<lparr>lastTimeCheck := now_utc\<rparr>)
        else
          Some ((resetScheduleFlagsForNewDay (localTime now_utc2 s) s)\<lparr>lastTimeCheck := now_utc\<rparr>)) \<and>
     (\<exists>s'. scheduleHandling now_utc now_utc2 tick s = Some s' \<and>
        lastDayOfYear s' = tm_yday (localTime now_utc2 s) \<and>
        scheduleAligned s' \<and> config s' = config s \<and>
        (\<forall>i < length (scheduleTimes (config s)).
           scheduleFiredToday s' ! i =
             (tm_sec (localTime now_utc2 s) = 0 \<and>
              scheduleMatches (minuteOfDay (localTime now_utc2 s)) s i)) \<and>
        triggerInProgress s' =
          (triggerInProgress s \<or>
           (tm_sec (localTime now_utc2 s) = 0 \<and>
            (\<exists>i < length (scheduleTimes (config s)).
               scheduleMatches (minuteOfDay (localTime now_utc2 s)) s i))))"
proof -
  define t where "t = localTime now_utc2 s"
  have nd: "newDayCheck t s = resetScheduleFlagsForNewDay t s"
    using assms(2) by (simp add: t_def newDayCheck_new_day)
  have fresh: "flagsFresh (resetScheduleFlagsForNewDay t s)"
    and day: "lastDayOfYear (resetScheduleFlagsForNewDay t s) = tm_yday t"
    by (rule resetScheduleFlagsForNewDay_fresh)+
  have al: "scheduleAligned (newDayCheck t s)"
    using fresh by (simp add: nd flagsFresh_def scheduleAligned_def)
  have nofl: "\<And>i. i < length (scheduleTimes (config s)) \<Longrightarrow>
      \<not> scheduleFiredToday (newDayCheck t s) ! i"
    by (simp add: nd resetScheduleFlagsForNewDay_def)
  have due: "\<And>cm. (\<exists>i < length (scheduleTimes (config s)). scheduleDue cm (newDayCheck t s) i) =
      (\<exists>i < length (scheduleTimes (config s)). scheduleMatches cm s i)"
    using nofl by (auto simp add: scheduleDue_iff scheduleMatches_def)
  from scheduleHandling_aligned_result [OF assms(1) al [unfolded t_def], of tick]
  obtain s' where r: "scheduleHandling now_utc now_utc2 tick s = Some s'"
    and c: "config s' = config s" and a: "scheduleAligned s'"
    and d: "lastDayOfYear s' = tm_yday t"
    and f: "\<forall>i < length (scheduleTimes (config s)).
         scheduleFiredToday s' ! i =
           (scheduleFiredToday (newDayCheck t s) ! i \<or>
            (tm_sec t = 0 \<and> scheduleMatches (minuteOfDay t) s i))"
    and p: "triggerInProgress s' =
        (triggerInProgress s \<or>
         (tm_sec t = 0 \<and>
          (\<exists>i < length (scheduleTimes (config s)).
             scheduleDue (minuteOfDay t) (newDayCheck t s) i)))"
    unfolding t_def [symmetric] by blast
  have f': "\<forall>i < length (scheduleTimes (config s)).
      scheduleFiredToday s' ! i = (tm_sec t = 0 \<and> scheduleMatches (minuteOfDay t) s i)"
    using f nofl by simp
  have p': "triggerInProgress s' =
        (triggerInProgress s \<or>
         (tm_sec t = 0 \<and>
          (\<exists>i < length (scheduleTimes (config s)). scheduleMatches (minuteOfDay t) s i)))"
    using p due by simp
  have eq: "scheduleHandling now_utc now_utc2 tick s =
       (if tm_sec t = 0 then
          scheduleLoop tick (minuteOfDay t) [0..<length (scheduleTimes (config s))]
            ((resetScheduleFlagsForNewDay t s)\<lparr>lastTimeCheck := now_utc\<rparr>)
        else Some ((resetScheduleFlagsForNewDay t s)\<lparr>lastTimeCheck := now_utc\<rparr>))"
    using scheduleHandling_pass [OF assms(1), of now_utc2 tick] by (simp add: t_def nd [unfolded t_def])
  from fresh day eq r d a c f' p' show ?thesis
    unfolding t_def [symmetric] by blast
qed

text \<open>
  The witness: two entries \<open>08:00\<close>, both flagged on day 316. A first pass of day 317
  at 08:00:00 sets both flags again and starts the pulse; a first pass of day 317 at
  07:59:59 leaves both flags \<open>false\<close>.
\<close>

theorem new_day_resets_flags_before_firing_witness:
  "1699948800 \<noteq> lastTimeCheck duplicateExample \<and>
   tm_yday (localTime 1699948800 duplicateExample) \<noteq> lastDayOfYear duplicateExample \<and>
   (\<exists>s'. scheduleHandling 1699948800 1699948800 (\<lambda>i. 7000) duplicateExample = Some s' \<and>
      scheduleFiredToday s' = [True, True] \<and> lastDayOfYear s' = 317 \<and>
      pinWrites s' = [(5, True)] \<and> triggerInProgress s') \<and>
   (\<exists>s'. scheduleHandling 1699948799 1699948799 (\<lambda>i. 7000) duplicateExample = Some s' \<and>
      scheduleFiredToday s' = [False, False] \<and> lastDayOfYear s' = 317 \<and>
      pinWrites s' = [] \<and> \<not> triggerInProgress s')"
proof -
  have h1: "1699948800 \<noteq> lastTimeCheck duplicateExample"
    and h1': "1699948799 \<noteq> lastTimeCheck duplicateExample"
    by (simp_all add: duplicateExample_def initialGlobals_def)
  have h2: "tm_yday (localTime 1699948800 duplicateExample) \<noteq> lastDayOfYear duplicateExample"
    and h2': "tm_yday (localTime 1699948799 duplicateExample) \<noteq> lastDayOfYear duplicateExample"
    by code_simp+
  have a: "map_option scheduleFiredToday
             (scheduleHandling 1699948800 1699948800 (\<lambda>i. 7000) duplicateExample) =
           Some [True, True]"
    "map_option lastDayOfYear
             (scheduleHandling 1699948800 1699948800 (\<lambda>i. 7000) duplicateExample) = Some 317"
    "map_option pinWrites
             (scheduleHandling 1699948800 1699948800 (\<lambda>i. 7000) duplicateExample) =
           Some [(5, True)]"
    "map_option triggerInProgress
             (scheduleHandling 1699948800 1699948800 (\<lambda>i. 7000) duplicateExample) = Some True"
    by code_simp+
  have b: "map_option scheduleFiredToday
             (scheduleHandling 1699948799 1699948799 (\<lambda>i. 7000) duplicateExample) =
           Some [False, False]"
    "map_option lastDayOfYear
             (scheduleHandling 1699948799 1699948799 (\<lambda>i. 7000) duplicateExample) = Some 317"
    "map_option pinWrites
             (scheduleHandling 1699948799 1699948799 (\<lambda>i. 7000) duplicateExample) = Some []"
    "map_option triggerInProgress
             (scheduleHandling 1699948799 1699948799 (\<lambda>i. 7000) duplicateExample) = Some False"
    by code_simp+
  from new_day_resets_flags_before_firing [OF h1 h2, of "\<lambda>i. 7000"]
  obtain s1 where s1: "scheduleHandling 1699948800 1699948800 (\<lambda>i. 7000) duplicateExample = Some s1"
    by blast
  from new_day_resets_flags_before_firing [OF h1' h2', of "\<lambda>i. 7000"]
  obtain s2 where s2: "scheduleHandling 1699948799 1699948799 (\<lambda>i. 7000) duplicateExample = Some s2"
    by blast
  from a s1 have A: "scheduleFiredToday s1 = [True, True] \<and> lastDayOfYear s1 = 317 \<and>
      pinWrites s1 = [(5, True)] \<and> triggerInProgress s1" by simp
  from b s2 have B: "scheduleFiredToday s2 = [False, False] \<and> lastDayOfYear s2 = 317 \<and>
      pinWrites s2 = [] \<and> \<not> triggerInProgress s2" by simp
  from h1 h2 s1 A s2 B show ?thesis by blast
qed

section \<open>Evaluation once per second, firing once per day\<close>

lemma scheduleHandling_repeat:
  assumes "scheduleHandling now_utc now_utc2 tick s = Some s'"
  shows "lastTimeCheck s' = now_utc \<and> scheduleHandling now_utc u2 tick2 s' = Some s'"
  using scheduleHandling_lastTimeCheck [OF assms]
  by (simp add: scheduleHandling_same_second)

lemma scheduleHandling_nothing_due:
  assumes al: "scheduleAligned s" and p: "now_utc \<noteq> lastTimeCheck s"
    and sd: "tm_yday (localTime now_utc2 s) = lastDayOfYear s"
    and fl: "\<forall>i < length (scheduleTimes (config s)).
        scheduleMatches (minuteOfDay (localTime now_utc2 s)) s i \<longrightarrow> scheduleFiredToday s ! i"
  shows "scheduleHandling now_utc now_utc2 tick s = Some (s\<lparr>lastTimeCheck := now_utc\<rparr>)"
proof -
  define t where "t = localTime now_utc2 s"
  define mid where "mid = s\<lparr>lastTimeCheck := now_utc\<rparr>"
  have nd: "newDayCheck t s = s" using sd by (simp add: t_def newDayCheck_same_day)
  have "\<forall>i\<in>set [0..<length (scheduleTimes (config s))].
      i < length (scheduleFiredToday mid) \<and>
      (scheduleMatches (minuteOfDay t) mid i \<longrightarrow> scheduleFiredToday mid ! i)"
    using al fl by (simp add: mid_def t_def scheduleAligned_def scheduleMatches_def)
  from scheduleLoop_no_due [OF this]
  have "scheduleLoop tick (minuteOfDay t) [0..<length (scheduleTimes (config s))] mid = Some mid" .
  with scheduleHandling_pass [OF p, of now_utc2 tick] nd show ?thesis
    by (simp add: t_def mid_def)
qed


text \<open>
  C5. (1) An iteration of \<open>loop\<close> whose reading of the wall clock equals
  \<open>lastTimeCheck\<close> does not evaluate the schedule. (2) After any iteration
  \<open>lastTimeCheck\<close> is the second just read, so every further iteration that reads the
  same second leaves the state as it is, whatever else it reads. (3) In a pass that
  runs on aligned vectors, the flag of an entry is set afterwards exactly if it was set
  after the day check or the local second is 0 and the entry matches the local minute;
  the pulse state and the pin change only if the second is 0 and some entry is due,
  that is, matches with its flag \<open>false\<close>. (4) On a day that has not changed, a pass in
  which every matching entry is already flagged changes nothing but \<open>lastTimeCheck\<close>:
  an entry that has fired does not fire again until the flags are rebuilt.
\<close>

theorem schedule_evaluated_once_per_second:
  "(now_utc = lastTimeCheck s \<longrightarrow> scheduleHandling now_utc now_utc2 tick s = Some s) \<and>
   (scheduleHandling now_utc now_utc2 tick s = Some s' \<longrightarrow>
      lastTimeCheck s' = now_utc \<and> scheduleHandling now_utc u2 tick2 s' = Some s') \<and>
   (scheduleAligned s \<and> now_utc \<noteq> lastTimeCheck s \<longrightarrow>
      (\<exists>r. scheduleHandling now_utc now_utc2 tick s = Some r \<and>
         config r = config s \<and> scheduleAligned r \<and>
         (\<forall>i < length (scheduleTimes (config s)).
            scheduleFiredToday r ! i =
              (scheduleFiredToday (newDayCheck (localTime now_utc2 s) s) ! i \<or>
               (tm_sec (localTime now_utc2 s) = 0 \<and>
                scheduleMatches (minuteOfDay (localTime now_utc2 s)) s i))) \<and>
         triggerInProgress r =
           (triggerInProgress s \<or>
            (tm_sec (localTime now_utc2 s) = 0 \<and>
             (\<exists>i < length (scheduleTimes (config s)).
                scheduleDue (minuteOfDay (localTime now_utc2 s))
                  (newDayCheck (localTime now_utc2 s) s) i))) \<and>
         pinWrites r =
           (if \<not> triggerInProgress s \<and> tm_sec (localTime now_utc2 s) = 0 \<and>
               (\<exists>i < length (scheduleTimes (config s)).
                  scheduleDue (minuteOfDay (localTime now_utc2 s))
                    (newDayCheck (localTime now_utc2 s) s) i)
            then pinWrites s @ [(triggerPin (config s), triggerActiveHigh (config s))]
            else pinWrites s))) \<and>
   (scheduleAligned s \<and> now_utc \<noteq> lastTimeCheck s \<and>
    tm_yday (localTime now_utc2 s) = lastDayOfYear s \<and>
    (\<forall>i < length (scheduleTimes (config s)).
        scheduleMatches (minuteOfDay (localTime now_utc2 s)) s i \<longrightarrow> scheduleFiredToday s ! i) \<longrightarrow>
      scheduleHandling now_utc now_utc2 tick s = Some (s\<lparr>lastTimeCheck := now_utc\<rparr>))"
proof (intro conjI impI)
  assume "now_utc = lastTimeCheck s"
  then show "scheduleHandling now_utc now_utc2 tick s = Some s"
    by (rule scheduleHandling_same_second)
next
  assume r: "scheduleHandling now_utc now_utc2 tick s = Some s'"
  from scheduleHandling_repeat [OF r] show "lastTimeCheck s' = now_utc"
    and "scheduleHandling now_utc u2 tick2 s' = Some s'" by simp_all
next
  assume a: "scheduleAligned s \<and> now_utc \<noteq> lastTimeCheck s"
  then have al: "scheduleAligned (newDayCheck (localTime now_utc2 s) s)"
    by (simp add: newDayCheck_aligned)
  from a have p: "now_utc \<noteq> lastTimeCheck s" by simp
  from scheduleHandling_aligned_result [OF p al, of tick]
  show "\<exists>r. scheduleHandling now_utc now_utc2 tick s = Some r \<and>
         config r = config s \<and> scheduleAligned r \<and>
         (\<forall>i < length (scheduleTimes (config s)).
            scheduleFiredToday r ! i =
              (scheduleFiredToday (newDayCheck (localTime now_utc2 s) s) ! i \<or>
               (tm_sec (localTime now_utc2 s) = 0 \<and>
                scheduleMatches (minuteOfDay (localTime now_utc2 s)) s i))) \<and>
         triggerInProgress r =
           (triggerInProgress s \<or>
            (tm_sec (localTime now_utc2 s) = 0 \<and>
             (\<exists>i < length (scheduleTimes (config s)).
                scheduleDue (minuteOfDay (localTime now_utc2 s))
                  (newDayCheck (localTime now_utc2 s) s) i))) \<and>
         pinWrites r =
           (if \<not> triggerInProgress s \<and> tm_sec (localTime now_utc2 s) = 0 \<and>
               (\<exists>i < length (scheduleTimes (config s)).
                  scheduleDue (minuteOfDay (localTime now_utc2 s))
                    (newDayCheck (localTime now_utc2 s) s) i)
            then pinWrites s @ [(triggerPin (config s), triggerActiveHigh (config s))]
            else pinWrites s)"
    by blast
next
  assume a: "scheduleAligned s \<and> now_utc \<noteq> lastTimeCheck s \<and>
    tm_yday (localTime now_utc2 s) = lastDayOfYear s \<and>
    (\<forall>i < length (scheduleTimes (config s)).
        scheduleMatches (minuteOfDay (localTime now_utc2 s)) s i \<longrightarrow> scheduleFiredToday s ! i)"
  then show "scheduleHandling now_utc now_utc2 tick s = Some (s\<lparr>lastTimeCheck := now_utc\<rparr>)"
    by (intro scheduleHandling_nothing_due) simp_all
qed

text \<open>
  The witness: entries \<open>08:00\<close> and \<open>12:30\<close>, a pass at 08:00:00 of day 317. The first
  entry fires; a second iteration in the same second changes nothing; and from a state
  in which the first entry is already flagged the pass only records the second.
\<close>

theorem schedule_evaluated_once_per_second_witness:
  "scheduleAligned onceExample \<and> 1699948800 \<noteq> lastTimeCheck onceExample \<and>
   (\<exists>r. scheduleHandling 1699948800 1699948800 (\<lambda>i. 7000) onceExample = Some r \<and>
      scheduleFiredToday r = [True, False] \<and> pinWrites r = [(5, True)] \<and>
      lastTimeCheck r = 1699948800 \<and>
      scheduleHandling 1699948800 1699948800 (\<lambda>i. 9000) r = Some r) \<and>
   scheduleHandling 1699948800 1699948800 (\<lambda>i. 7000) firedExample =
     Some (firedExample\<lparr>lastTimeCheck := 1699948800\<rparr>)"
proof -
  have al: "scheduleAligned onceExample" and al': "scheduleAligned firedExample"
    by (simp_all add: scheduleAligned_def firedExample_def onceExample_def initialGlobals_def
        defaultConfig_def)
  have p: "1699948800 \<noteq> lastTimeCheck onceExample"
    and p': "1699948800 \<noteq> lastTimeCheck firedExample"
    by (simp_all add: firedExample_def onceExample_def initialGlobals_def)
  have sd: "tm_yday (localTime 1699948800 firedExample) = lastDayOfYear firedExample"
    by code_simp
  have n: "length (scheduleTimes (config firedExample)) = 2"
    by (simp add: firedExample_def onceExample_def initialGlobals_def defaultConfig_def)
  have m0: "scheduleFiredToday firedExample ! 0"
    by (simp add: firedExample_def)
  have m1: "\<not> scheduleMatches (minuteOfDay (localTime 1699948800 firedExample)) firedExample 1"
    by code_simp
  have fl: "\<forall>i < length (scheduleTimes (config firedExample)).
        scheduleMatches (minuteOfDay (localTime 1699948800 firedExample)) firedExample i \<longrightarrow>
        scheduleFiredToday firedExample ! i"
    unfolding n using m0 m1 by (simp add: less_Suc_eq numeral_2_eq_2)
  have v: "map_option scheduleFiredToday
             (scheduleHandling 1699948800 1699948800 (\<lambda>i. 7000) onceExample) =
           Some [True, False]"
    "map_option pinWrites
             (scheduleHandling 1699948800 1699948800 (\<lambda>i. 7000) onceExample) =
           Some [(5, True)]"
    by code_simp+
  note t1 = schedule_evaluated_once_per_second
    [where now_utc = 1699948800 and ?now_utc2.0 = 1699948800 and tick = "\<lambda>i. 7000" and s = onceExample]
  from t1 al p obtain r
    where r: "scheduleHandling 1699948800 1699948800 (\<lambda>i. 7000) onceExample = Some r"
    by blast
  from t1 [where s' = r and ?u2.0 = 1699948800 and ?tick2.0 = "\<lambda>i. 9000"] r
  have rep: "lastTimeCheck r = 1699948800 \<and>
      scheduleHandling 1699948800 1699948800 (\<lambda>i. 9000) r = Some r"
    by blast
  from v r have f: "scheduleFiredToday r = [True, False] \<and> pinWrites r = [(5, True)]" by simp
  from schedule_evaluated_once_per_second
    [where now_utc = 1699948800 and ?now_utc2.0 = 1699948800 and tick = "\<lambda>i. 7000"
       and s = firedExample] al' p' sd fl
  have q: "scheduleHandling 1699948800 1699948800 (\<lambda>i. 7000) firedExample =
     Some (firedExample\<lparr>lastTimeCheck := 1699948800\<rparr>)"
    by blast
  from al p r rep f q show ?thesis by blast
qed

section \<open>The branches of the MQTT callback\<close>

lemma interval_not_earlier:
  assumes "startsWith msg ''INTERVAL:''"
  shows "\<not> equalsIgnoreCase msg ''TRIGGER''" and "msg \<noteq> ''1''"
proof -
  from assms obtain r where m: "msg = ''INTERVAL:'' @ r" by (rule startsWith_append)
  show "\<not> equalsIgnoreCase msg ''TRIGGER''" by (simp add: m equalsIgnoreCase_def)
  show "msg \<noteq> ''1''" by (simp add: m)
qed

lemma stop_interval_not_earlier:
  assumes "equalsIgnoreCase msg ''STOP_INTERVAL''"
  shows "\<not> equalsIgnoreCase msg ''TRIGGER''" and "msg \<noteq> ''1''"
    and "\<not> startsWith msg ''INTERVAL:''"
proof -
  from assms have len: "length msg = 13" and low: "map toLowerCase msg = ''stop_interval''"
    by (simp_all add: equalsIgnoreCase_def isUpper_def)
  show "\<not> equalsIgnoreCase msg ''TRIGGER''" using len by (simp add: equalsIgnoreCase_def)
  show "msg \<noteq> ''1''" using len by auto
  show "\<not> startsWith msg ''INTERVAL:''"
  proof
    assume "startsWith msg ''INTERVAL:''"
    then obtain r where "msg = ''INTERVAL:'' @ r" by (rule startsWith_append)
    with low show False by (simp add: isUpper_def)
  qed
qed

lemma mqtt_interval:
  assumes "startsWith (trim payload) ''INTERVAL:''"
  shows "mqttCallback now payload s =
     (if 0 < (word_of_int (toInt (substringFrom (trim payload) (length ''INTERVAL:''))) :: u32)
      then (saveConfig
              (s\<lparr>config := (config s)
                 \<lparr>intervalSeconds :=
                    word_of_int (toInt (substringFrom (trim payload) (length ''INTERVAL:''))),
                  intervalEnabled := True\<rparr>\<rparr>))
            \<lparr>nextIntervalAt := now +
               word_of_int (toInt (substringFrom (trim payload) (length ''INTERVAL:''))) * 1000\<rparr>
      else s)"
  using assms interval_not_earlier [OF assms]
  by (simp add: mqttCallback_def Let_def)

lemma mqtt_stop_interval:
  assumes "equalsIgnoreCase (trim payload) ''STOP_INTERVAL''"
  shows "mqttCallback now payload s =
     saveConfig (s\<lparr>config := (config s)\<lparr>intervalEnabled := False\<rparr>\<rparr>)"
  using assms stop_interval_not_earlier [OF assms]
  by (simp add: mqttCallback_def Let_def)

lemma mqtt_unrecognized:
  assumes "\<not> equalsIgnoreCase (trim payload) ''TRIGGER''" and "trim payload \<noteq> ''1''"
    and "\<not> startsWith (trim payload) ''INTERVAL:''"
    and "\<not> equalsIgnoreCase (trim payload) ''STOP_INTERVAL''"
    and "\<not> startsWith (trim payload) ''ADD_SCHEDULE:''"
    and "\<not> equalsIgnoreCase (trim payload) ''CLEAR_SCHEDULE''"
  shows "mqttCallback now payload s = s"
  using assms by (simp add: mqttCallback_def Let_def)

lemma mqtt_add_schedule_rejected:
  assumes "startsWith (trim payload) ''ADD_SCHEDULE:''"
    and "parseTimeToMinutes (trim (substringFrom (trim payload) (length ''ADD_SCHEDULE:''))) < 0"
  shows "mqttCallback now payload s = s"
  using assms add_schedule_not_earlier [OF assms(1)]
  by (simp add: mqttCallback_def Let_def)


section \<open>Validation of command data\<close>

text \<open>
  C6. The value of an \<open>INTERVAL:\<close> command is the result of \<open>toInt\<close> stored in a
  \<open>uint32_t\<close>, and the test is \<open>s > 0\<close> on that unsigned value. A negative number
  therefore passes the test: \<open>INTERVAL:-5\<close> is accepted, sets the period to
  \<open>2^32 - 5\<close> seconds, enables the interval and re-arms the deadline, in every state.
\<close>

theorem negative_interval_accepted:
  "intervalSeconds (config (mqttCallback now ''INTERVAL:-5'' s)) = 4294967291 \<and>
   intervalEnabled (config (mqttCallback now ''INTERVAL:-5'' s)) \<and>
   nextIntervalAt (mqttCallback now ''INTERVAL:-5'' s) = now + 4294967291 * 1000"
proof -
  have p: "startsWith (trim ''INTERVAL:-5'') ''INTERVAL:''" by code_simp
  have v: "(word_of_int (toInt (substringFrom (trim ''INTERVAL:-5'') (length ''INTERVAL:'')))
            :: u32) = 4294967291" by code_simp
  have pos: "(0 :: u32) < 4294967291" by simp
  show ?thesis unfolding mqtt_interval [OF p] v using pos by simp
qed


text \<open>
  The other commands named with C6 behave as described: \<open>INTERVAL:0\<close> and a value
  without digits change nothing, \<open>INTERVAL:30\<close> sets 30 seconds and enables,
  \<open>ADD_SCHEDULE:25:00\<close> changes nothing, \<open>ADD_SCHEDULE:08:05\<close> is appended.
\<close>

lemma interval_command_examples:
  "mqttCallback now ''INTERVAL:0'' s = s"
  "mqttCallback now ''INTERVAL:abc'' s = s"
  "intervalSeconds (config (mqttCallback now ''INTERVAL:30'' s)) = 30"
  "intervalEnabled (config (mqttCallback now ''INTERVAL:30'' s))"
  "nextIntervalAt (mqttCallback now ''INTERVAL:30'' s) = now + 30000"
proof -
  have p0: "startsWith (trim ''INTERVAL:0'') ''INTERVAL:''"
    and pa: "startsWith (trim ''INTERVAL:abc'') ''INTERVAL:''"
    and p30: "startsWith (trim ''INTERVAL:30'') ''INTERVAL:''" by code_simp+
  have v0: "(word_of_int (toInt (substringFrom (trim ''INTERVAL:0'') (length ''INTERVAL:'')))
            :: u32) = 0"
    and va: "(word_of_int (toInt (substringFrom (trim ''INTERVAL:abc'') (length ''INTERVAL:'')))
            :: u32) = 0"
    and v30: "(word_of_int (toInt (substringFrom (trim ''INTERVAL:30'') (length ''INTERVAL:'')))
            :: u32) = 30" by code_simp+
  show "mqttCallback now ''INTERVAL:0'' s = s" unfolding mqtt_interval [OF p0] v0 by simp
  show "mqttCallback now ''INTERVAL:abc'' s = s" unfolding mqtt_interval [OF pa] va by simp
  show "intervalSeconds (config (mqttCallback now ''INTERVAL:30'' s)) = 30"
    unfolding mqtt_interval [OF p30] v30 by simp
  show "intervalEnabled (config (mqttCallback now ''INTERVAL:30'' s))"
    unfolding mqtt_interval [OF p30] v30 by simp
  show "nextIntervalAt (mqttCallback now ''INTERVAL:30'' s) = now + 30000"
    unfolding mqtt_interval [OF p30] v30 by simp
qed

lemma add_schedule_command_examples:
  "mqttCallback now ''ADD_SCHEDULE:25:00'' s = s"
  "scheduleTimes (config (mqttCallback now ''ADD_SCHEDULE:08:05'' s)) =
     scheduleTimes (config s) @ [''08:05'']"
  "flagsFresh (mqttCallback now ''ADD_SCHEDULE:08:05'' s)"
proof -
  have p25: "startsWith (trim ''ADD_SCHEDULE:25:00'') ''ADD_SCHEDULE:''"
    and r25: "parseTimeToMinutes
        (trim (substringFrom (trim ''ADD_SCHEDULE:25:00'') (length ''ADD_SCHEDULE:''))) < 0"
    by code_simp+
  show "mqttCallback now ''ADD_SCHEDULE:25:00'' s = s"
    using p25 r25 by (rule mqtt_add_schedule_rejected)
  have p: "startsWith (trim ''ADD_SCHEDULE:08:05'') ''ADD_SCHEDULE:'' \<and>
      0 \<le> parseTimeToMinutes
        (trim (substringFrom (trim ''ADD_SCHEDULE:08:05'') (length ''ADD_SCHEDULE:'')))"
    by code_simp
  have t: "trim (substringFrom (trim ''ADD_SCHEDULE:08:05'') (length ''ADD_SCHEDULE:'')) = ''08:05''"
    by code_simp
  from mqtt_add_schedule [of "''ADD_SCHEDULE:08:05''" now s] p
  show "scheduleTimes (config (mqttCallback now ''ADD_SCHEDULE:08:05'' s)) =
     scheduleTimes (config s) @ [''08:05'']"
    and "flagsFresh (mqttCallback now ''ADD_SCHEDULE:08:05'' s)"
    unfolding t by blast+
qed

section \<open>Letter case of the command keywords\<close>

text \<open>
  C10. The keywords \<open>INTERVAL:\<close> and \<open>ADD_SCHEDULE:\<close> are matched with
  \<open>startsWith\<close>, which compares bytes: written in lower case they are not recognised
  and the message changes nothing, while the upper-case forms take effect.
\<close>

theorem lowercase_prefix_commands_ignored:
  "mqttCallback now ''interval:10'' s = s \<and>
   intervalSeconds (config (mqttCallback now ''INTERVAL:10'' s)) = 10 \<and>
   intervalEnabled (config (mqttCallback now ''INTERVAL:10'' s)) \<and>
   mqttCallback now ''add_schedule:08:00'' s = s \<and>
   scheduleTimes (config (mqttCallback now ''ADD_SCHEDULE:08:00'' s)) =
     scheduleTimes (config s) @ [''08:00'']"
proof -
  have l1: "\<not> equalsIgnoreCase (trim ''interval:10'') ''TRIGGER''"
      "trim ''interval:10'' \<noteq> ''1''"
      "\<not> startsWith (trim ''interval:10'') ''INTERVAL:''"
      "\<not> equalsIgnoreCase (trim ''interval:10'') ''STOP_INTERVAL''"
      "\<not> startsWith (trim ''interval:10'') ''ADD_SCHEDULE:''"
      "\<not> equalsIgnoreCase (trim ''interval:10'') ''CLEAR_SCHEDULE''"
    by code_simp+
  have l2: "\<not> equalsIgnoreCase (trim ''add_schedule:08:00'') ''TRIGGER''"
      "trim ''add_schedule:08:00'' \<noteq> ''1''"
      "\<not> startsWith (trim ''add_schedule:08:00'') ''INTERVAL:''"
      "\<not> equalsIgnoreCase (trim ''add_schedule:08:00'') ''STOP_INTERVAL''"
      "\<not> startsWith (trim ''add_schedule:08:00'') ''ADD_SCHEDULE:''"
      "\<not> equalsIgnoreCase (trim ''add_schedule:08:00'') ''CLEAR_SCHEDULE''"
    by code_simp+
  have p: "startsWith (trim ''INTERVAL:10'') ''INTERVAL:''" by code_simp
  have v: "(word_of_int (toInt (substringFrom (trim ''INTERVAL:10'') (length ''INTERVAL:'')))
            :: u32) = 10" by code_simp
  have a: "startsWith (trim ''ADD_SCHEDULE:08:00'') ''ADD_SCHEDULE:'' \<and>
      0 \<le> parseTimeToMinutes
        (trim (substringFrom (trim ''ADD_SCHEDULE:08:00'') (length ''ADD_SCHEDULE:'')))"
    by code_simp
  have t: "trim (substringFrom (trim ''ADD_SCHEDULE:08:00'') (length ''ADD_SCHEDULE:'')) = ''08:00''"
    by code_simp
  have 1: "mqttCallback now ''interval:10'' s = s" using l1 by (rule mqtt_unrecognized)
  have 2: "intervalSeconds (config (mqttCallback now ''INTERVAL:10'' s)) = 10"
    and 3: "intervalEnabled (config (mqttCallback now ''INTERVAL:10'' s))"
    unfolding mqtt_interval [OF p] v by simp_all
  have 4: "mqttCallback now ''add_schedule:08:00'' s = s" using l2 by (rule mqtt_unrecognized)
  have 5: "scheduleTimes (config (mqttCallback now ''ADD_SCHEDULE:08:00'' s)) =
     scheduleTimes (config s) @ [''08:00'']"
    using mqtt_add_schedule [of "''ADD_SCHEDULE:08:00''" now s] a unfolding t by blast
  from 1 2 3 4 5 show ?thesis by blast
qed


text \<open>
  The keywords compared with \<open>equalsIgnoreCase\<close> are accepted in either case, and a
  message that is no command changes nothing.
\<close>

lemma whole_message_keywords_ignore_case:
  "mqttCallback now ''trigger'' s = triggerPulse now s"
  "mqttCallback now ''TRIGGER'' s = triggerPulse now s"
  "mqttCallback now ''stop_interval'' s = mqttCallback now ''STOP_INTERVAL'' s"
  "mqttCallback now ''clear_schedule'' s = mqttCallback now ''CLEAR_SCHEDULE'' s"
  "mqttCallback now ''hello'' s = s"
proof -
  have t: "equalsIgnoreCase (trim ''trigger'') ''TRIGGER''"
    "equalsIgnoreCase (trim ''TRIGGER'') ''TRIGGER''" by code_simp+
  then show "mqttCallback now ''trigger'' s = triggerPulse now s"
    and "mqttCallback now ''TRIGGER'' s = triggerPulse now s"
    by (simp_all add: mqttCallback_def Let_def)
  have st: "equalsIgnoreCase (trim ''stop_interval'') ''STOP_INTERVAL''"
    "equalsIgnoreCase (trim ''STOP_INTERVAL'') ''STOP_INTERVAL''" by code_simp+
  show "mqttCallback now ''stop_interval'' s = mqttCallback now ''STOP_INTERVAL'' s"
    by (simp only: mqtt_stop_interval [OF st(1)] mqtt_stop_interval [OF st(2)])
  have cl: "equalsIgnoreCase (trim ''clear_schedule'') ''CLEAR_SCHEDULE''"
    "equalsIgnoreCase (trim ''CLEAR_SCHEDULE'') ''CLEAR_SCHEDULE''" by code_simp+
  show "mqttCallback now ''clear_schedule'' s = mqttCallback now ''CLEAR_SCHEDULE'' s"
    using cl clear_schedule_not_earlier [OF cl(1)] clear_schedule_not_earlier [OF cl(2)]
    by (simp add: mqttCallback_def Let_def)
  have h: "\<not> equalsIgnoreCase (trim ''hello'') ''TRIGGER''"
      "trim ''hello'' \<noteq> ''1''"
      "\<not> startsWith (trim ''hello'') ''INTERVAL:''"
      "\<not> equalsIgnoreCase (trim ''hello'') ''STOP_INTERVAL''"
      "\<not> startsWith (trim ''hello'') ''ADD_SCHEDULE:''"
      "\<not> equalsIgnoreCase (trim ''hello'') ''CLEAR_SCHEDULE''"
    by code_simp+
  then show "mqttCallback now ''hello'' s = s" by (rule mqtt_unrecognized)
qed

section \<open>Disabling and re-enabling the interval\<close>

lemma intervalHandling_inactive:
  assumes "\<not> (intervalEnabled (config s) \<and> intervalSeconds (config s) > 0)"
  shows "intervalHandling now nowFire s = s"
  unfolding intervalHandling_def using assms by (rule if_not_P)

lemma unat_times_1000:
  assumes "unat (p :: u32) * 1000 < 2 ^ 31"
  shows "uint (p * 1000) = int (unat p * 1000)"
proof -
  have "unat (p * 1000) = unat p * 1000"
    using assms by (simp add: unat_word_ariths)
  then show ?thesis by (metis of_nat_unat)
qed

lemma intervalDue_before_period:
  assumes b: "unat (p :: u32) * 1000 < 2 ^ 31"
    and e: "unat (now' - armedAt) < unat p * 1000"
  shows "\<not> intervalDue now' (armedAt + p * 1000)"
proof -
  define a where "a = now' - armedAt"
  define P where "P = unat p * 1000"
  define k where "k = uint a - uint (p * 1000)"
  have ua: "uint a = int (unat a)" by simp
  have kk: "k = int (unat a) - int P"
    unfolding k_def unat_times_1000 [OF b] ua P_def ..
  have aP: "unat a < P" and P31: "P < 2 ^ 31" using b e by (simp_all only: P_def a_def)
  have i1: "int (unat a) < int P" using aP by (simp only: of_nat_less_iff)
  have i2: "int P < 2147483648" using P31 by simp
  have i3: "0 \<le> int (unat a)" by (rule of_nat_0_le_iff)
  have hi: "k < 0" unfolding kk using i1 by linarith
  have "- 2147483648 \<le> k" unfolding kk using i2 i3 by linarith
  then have lo: "- (2 ^ 31) \<le> k" by simp
  have "now' - (armedAt + p * 1000) = a - p * 1000" by (simp add: a_def)
  also have "\<dots> = word_of_int k" by (simp add: k_def)
  finally have "sint (now' - (armedAt + p * 1000)) = k"
    using sint_word_of_int_small [of k] lo hi by simp
  with hi show ?thesis by (simp add: intervalDue_def)
qed

lemma intervalHandling_not_before_period:
  assumes "nextIntervalAt s = armedAt + intervalSeconds (config s) * 1000"
    and "unat (intervalSeconds (config s)) * 1000 < 2 ^ 31"
    and "unat (now' - armedAt) < unat (intervalSeconds (config s)) * 1000"
  shows "triggerInProgress (intervalHandling now' nowFire s) = triggerInProgress s \<and>
     lastTriggerAt (intervalHandling now' nowFire s) = lastTriggerAt s \<and>
     pinWrites (intervalHandling now' nowFire s) = pinWrites s"
  using intervalDue_before_period [OF assms(2,3)] assms(1)
  by (simp add: intervalHandling_def)

lemma handleIntervalPost_rearms:
  "snd (handleIntervalPost now req s) = 303 \<and>
   intervalEnabled (config (fst (handleIntervalPost now req s))) \<longrightarrow>
     nextIntervalAt (fst (handleIntervalPost now req s)) =
       now + intervalSeconds (config (fst (handleIntervalPost now req s))) * 1000"
  by (cases "hasArg req ''seconds''";
      cases "hasArg req ''enabled'' \<and>
             0 < (word_of_int (toInt (arg req ''seconds'')) :: u32)")
     (auto simp add: handleIntervalPost_def Let_def)


text \<open>
  C7, as stated, fails: \<open>STOP_INTERVAL\<close> only clears \<open>intervalEnabled\<close>. The deadline
  armed before (20000 in the example) is still there after the command and after a
  pass of the interval handling; it is not 0, the value that stands for "not armed".
\<close>

theorem stop_interval_leaves_deadline_set:
  "\<not> intervalEnabled (config stoppedExample) \<and>
   nextIntervalAt (intervalHandling 25000 25000 stoppedExample) = 20000 \<and>
   nextIntervalAt (intervalHandling 25000 25000 stoppedExample) \<noteq> 0"
  by code_simp


text \<open>
  C7, amended. While the interval is disabled or the period is 0, the interval handling
  returns the state unchanged, so the deadline keeps whatever value it has;
  \<open>STOP_INTERVAL\<close> does not touch it. Each way of enabling the interval, an accepted
  \<open>INTERVAL:\<close> message or an accepted HTTP form that leaves the interval enabled, sets
  the deadline to the tick of that call plus \<open>intervalSeconds * 1000\<close>, whatever the
  deadline was. From a deadline armed like this with a period below \<open>2^31\<close> ms, a pass
  that runs before the period has elapsed does not start a pulse.
\<close>

theorem disabled_interval_keeps_deadline:
  "(\<not> (intervalEnabled (config s) \<and> intervalSeconds (config s) > 0) \<longrightarrow>
      intervalHandling now nowFire s = s) \<and>
   (equalsIgnoreCase (trim payload) ''STOP_INTERVAL'' \<longrightarrow>
      \<not> intervalEnabled (config (mqttCallback now payload s)) \<and>
      nextIntervalAt (mqttCallback now payload s) = nextIntervalAt s) \<and>
   (startsWith (trim payload) ''INTERVAL:'' \<and>
    0 < (word_of_int (toInt (substringFrom (trim payload) (length ''INTERVAL:''))) :: u32) \<longrightarrow>
      intervalEnabled (config (mqttCallback now payload s)) \<and>
      intervalSeconds (config (mqttCallback now payload s)) =
        word_of_int (toInt (substringFrom (trim payload) (length ''INTERVAL:''))) \<and>
      nextIntervalAt (mqttCallback now payload s) =
        now + intervalSeconds (config (mqttCallback now payload s)) * 1000) \<and>
   (snd (handleIntervalPost now req s) = 303 \<and>
    intervalEnabled (config (fst (handleIntervalPost now req s))) \<longrightarrow>
      nextIntervalAt (fst (handleIntervalPost now req s)) =
        now + intervalSeconds (config (fst (handleIntervalPost now req s))) * 1000) \<and>
   (nextIntervalAt s = armedAt + intervalSeconds (config s) * 1000 \<and>
    unat (intervalSeconds (config s)) * 1000 < 2 ^ 31 \<and>
    unat (now' - armedAt) < unat (intervalSeconds (config s)) * 1000 \<longrightarrow>
      triggerInProgress (intervalHandling now' nowFire s) = triggerInProgress s \<and>
      lastTriggerAt (intervalHandling now' nowFire s) = lastTriggerAt s \<and>
      pinWrites (intervalHandling now' nowFire s) = pinWrites s)"
proof (intro conjI)
  show "\<not> (intervalEnabled (config s) \<and> intervalSeconds (config s) > 0) \<longrightarrow>
      intervalHandling now nowFire s = s"
    by (simp add: intervalHandling_inactive)
  show "equalsIgnoreCase (trim payload) ''STOP_INTERVAL'' \<longrightarrow>
      \<not> intervalEnabled (config (mqttCallback now payload s)) \<and>
      nextIntervalAt (mqttCallback now payload s) = nextIntervalAt s"
    by (simp add: mqtt_stop_interval)
  show "startsWith (trim payload) ''INTERVAL:'' \<and>
    0 < (word_of_int (toInt (substringFrom (trim payload) (length ''INTERVAL:''))) :: u32) \<longrightarrow>
      intervalEnabled (config (mqttCallback now payload s)) \<and>
      intervalSeconds (config (mqttCallback now payload s)) =
        word_of_int (toInt (substringFrom (trim payload) (length ''INTERVAL:''))) \<and>
      nextIntervalAt (mqttCallback now payload s) =
        now + intervalSeconds (config (mqttCallback now payload s)) * 1000"
    by (simp add: mqtt_interval)
  show "snd (handleIntervalPost now req s) = 303 \<and>
    intervalEnabled (config (fst (handleIntervalPost now req s))) \<longrightarrow>
      nextIntervalAt (fst (handleIntervalPost now req s)) =
        now + intervalSeconds (config (fst (handleIntervalPost now req s))) * 1000"
    by (rule handleIntervalPost_rearms)
  show "nextIntervalAt s = armedAt + intervalSeconds (config s) * 1000 \<and>
    unat (intervalSeconds (config s)) * 1000 < 2 ^ 31 \<and>
    unat (now' - armedAt) < unat (intervalSeconds (config s)) * 1000 \<longrightarrow>
      triggerInProgress (intervalHandling now' nowFire s) = triggerInProgress s \<and>
      lastTriggerAt (intervalHandling now' nowFire s) = lastTriggerAt s \<and>
      pinWrites (intervalHandling now' nowFire s) = pinWrites s"
    using intervalHandling_not_before_period [of s armedAt now' nowFire] by blast
qed

text \<open>
  The witness: the interval of the example stopped at tick 21000, a pass at 25000, and
  a re-enabling at 50000 with a period of 30 s through either path.
\<close>

theorem disabled_interval_keeps_deadline_witness:
  "\<not> (intervalEnabled (config stoppedExample) \<and> intervalSeconds (config stoppedExample) > 0) \<and>
   intervalHandling 25000 25000 stoppedExample = stoppedExample \<and>
   nextIntervalAt (mqttCallback 21000 ''STOP_INTERVAL'' intervalExample) = 20000 \<and>
   nextIntervalAt (mqttCallback 50000 ''INTERVAL:30'' stoppedExample) = 80000 \<and>
   nextIntervalAt
     (fst (handleIntervalPost 50000 [(''seconds'', ''30''), (''enabled'', ''on'')] stoppedExample)) =
     80000 \<and>
   pinWrites (intervalHandling 79999 79999 rearmedExample) = pinWrites rearmedExample \<and>
   triggerInProgress (intervalHandling 79999 79999 rearmedExample) =
     triggerInProgress rearmedExample"
proof -
  have h1: "\<not> (intervalEnabled (config stoppedExample) \<and>
      intervalSeconds (config stoppedExample) > 0)" by code_simp
  from disabled_interval_keeps_deadline [where s = stoppedExample and now = 25000
      and nowFire = 25000] h1
  have c1: "intervalHandling 25000 25000 stoppedExample = stoppedExample" by blast
  have h2: "equalsIgnoreCase (trim ''STOP_INTERVAL'') ''STOP_INTERVAL''" by code_simp
  have v2: "nextIntervalAt intervalExample = 20000"
    by (simp add: intervalExample_def initialGlobals_def)
  from disabled_interval_keeps_deadline [where s = intervalExample and now = 21000
      and payload = "''STOP_INTERVAL''"] h2
  have "nextIntervalAt (mqttCallback 21000 ''STOP_INTERVAL'' intervalExample) =
      nextIntervalAt intervalExample" by blast
  then have c2: "nextIntervalAt (mqttCallback 21000 ''STOP_INTERVAL'' intervalExample) = 20000"
    by (simp only: v2)
  have h3: "startsWith (trim ''INTERVAL:30'') ''INTERVAL:'' \<and>
    0 < (word_of_int (toInt (substringFrom (trim ''INTERVAL:30'') (length ''INTERVAL:''))) :: u32)"
    by code_simp
  have v3: "(word_of_int (toInt (substringFrom (trim ''INTERVAL:30'') (length ''INTERVAL:'')))
      :: u32) = 30" by code_simp
  from disabled_interval_keeps_deadline [where s = stoppedExample and now = 50000
      and payload = "''INTERVAL:30''"] h3
  have "intervalSeconds (config (mqttCallback 50000 ''INTERVAL:30'' stoppedExample)) =
        word_of_int (toInt (substringFrom (trim ''INTERVAL:30'') (length ''INTERVAL:''))) \<and>
      nextIntervalAt (mqttCallback 50000 ''INTERVAL:30'' stoppedExample) =
        50000 + intervalSeconds (config (mqttCallback 50000 ''INTERVAL:30'' stoppedExample)) * 1000"
    by blast
  then have c3: "nextIntervalAt (mqttCallback 50000 ''INTERVAL:30'' stoppedExample) = 80000"
    unfolding v3 by simp
  have h4: "snd (handleIntervalPost 50000 [(''seconds'', ''30''), (''enabled'', ''on'')]
        stoppedExample) = 303 \<and>
    intervalEnabled (config (fst (handleIntervalPost 50000
        [(''seconds'', ''30''), (''enabled'', ''on'')] stoppedExample)))" by code_simp
  have v4: "intervalSeconds (config (fst (handleIntervalPost 50000
        [(''seconds'', ''30''), (''enabled'', ''on'')] stoppedExample))) = 30" by code_simp
  from disabled_interval_keeps_deadline [where s = stoppedExample and now = 50000
      and req = "[(''seconds'', ''30''), (''enabled'', ''on'')]"] h4
  have "nextIntervalAt (fst (handleIntervalPost 50000
        [(''seconds'', ''30''), (''enabled'', ''on'')] stoppedExample)) =
      50000 + intervalSeconds (config (fst (handleIntervalPost 50000
        [(''seconds'', ''30''), (''enabled'', ''on'')] stoppedExample))) * 1000" by blast
  then have c4: "nextIntervalAt (fst (handleIntervalPost 50000
        [(''seconds'', ''30''), (''enabled'', ''on'')] stoppedExample)) = 80000"
    unfolding v4 by simp
  have h5: "nextIntervalAt rearmedExample =
      50000 + intervalSeconds (config rearmedExample) * 1000 \<and>
    unat (intervalSeconds (config rearmedExample)) * 1000 < 2 ^ 31 \<and>
    unat ((79999 :: u32) - 50000) < unat (intervalSeconds (config rearmedExample)) * 1000"
  proof -
    have "intervalSeconds (config rearmedExample) = 30"
      and "nextIntervalAt rearmedExample = 80000" by code_simp+
    then show ?thesis by simp
  qed
  from disabled_interval_keeps_deadline [where s = rearmedExample and armedAt = 50000
      and now' = 79999 and nowFire = 79999] h5
  have c5: "pinWrites (intervalHandling 79999 79999 rearmedExample) = pinWrites rearmedExample \<and>
   triggerInProgress (intervalHandling 79999 79999 rearmedExample) =
     triggerInProgress rearmedExample" by blast
  from h1 c1 c2 c3 c4 c5 show ?thesis by blast
qed

section \<open>The interval invariant\<close>

lemma mqttCallback_intervalInvariant:
  "intervalInvariant s \<Longrightarrow> intervalInvariant (mqttCallback now payload s)"
  by (simp add: mqttCallback_def Let_def intervalInvariant_def)

lemma handleIntervalPost_invariant:
  "snd (handleIntervalPost now req s) = 303 \<longrightarrow>
     intervalInvariant (fst (handleIntervalPost now req s))"
  by (cases "hasArg req ''seconds''";
      cases "hasArg req ''enabled'' \<and>
             0 < (word_of_int (toInt (arg req ''seconds'')) :: u32)")
     (auto simp add: handleIntervalPost_def Let_def intervalInvariant_def)

lemma handleIntervalPost_rejected:
  "snd (handleIntervalPost now req s) \<noteq> 303 \<longrightarrow> fst (handleIntervalPost now req s) = s"
  by (cases "hasArg req ''seconds''") (simp_all add: handleIntervalPost_def Let_def)

lemma loadMqtt_interval [simp]:
  "intervalSeconds (loadMqtt m c) = intervalSeconds c"
  "intervalEnabled (loadMqtt m c) = intervalEnabled c"
  by (simp_all add: loadMqtt_def split: option.splits)

lemma loadConfig_interval:
  "configFile s = Some doc \<longrightarrow>
     intervalSeconds (config (loadConfig s)) =
       orDefault (docIntervalSeconds doc) (intervalSeconds (config s)) \<and>
     intervalEnabled (config (loadConfig s)) =
       orDefault (docIntervalEnabled doc) (intervalEnabled (config s))"
  by (simp add: loadConfig_def Let_def)


text \<open>
  C8, as stated, fails for the load: \<open>loadConfig\<close> copies \<open>intervalSeconds\<close> and
  \<open>intervalEnabled\<close> from the file as they are, so a file with a period of 0 and the
  interval enabled gives exactly that configuration.
\<close>

theorem load_admits_enabled_zero_period:
  "intervalEnabled (config (loadConfig zeroPeriodStore)) \<and>
   intervalSeconds (config (loadConfig zeroPeriodStore)) = 0"
  by code_simp


text \<open>
  C8, amended. Every MQTT message keeps the invariant, and an accepted \<open>INTERVAL:\<close>
  message establishes it; an accepted HTTP interval form establishes it, and a
  rejected one changes nothing. \<open>loadConfig\<close> takes both fields from the file without
  a check. The interval handling tests the period itself: with a period of 0 it
  returns the state unchanged, enabled or not.
\<close>

theorem interval_invariant_after_commands:
  "(intervalInvariant s \<longrightarrow> intervalInvariant (mqttCallback now payload s)) \<and>
   (startsWith (trim payload) ''INTERVAL:'' \<and>
    0 < (word_of_int (toInt (substringFrom (trim payload) (length ''INTERVAL:''))) :: u32) \<longrightarrow>
      intervalInvariant (mqttCallback now payload s)) \<and>
   (snd (handleIntervalPost now req s) = 303 \<longrightarrow>
      intervalInvariant (fst (handleIntervalPost now req s))) \<and>
   (snd (handleIntervalPost now req s) \<noteq> 303 \<longrightarrow> fst (handleIntervalPost now req s) = s) \<and>
   (configFile s = Some doc \<longrightarrow>
      intervalSeconds (config (loadConfig s)) =
        orDefault (docIntervalSeconds doc) (intervalSeconds (config s)) \<and>
      intervalEnabled (config (loadConfig s)) =
        orDefault (docIntervalEnabled doc) (intervalEnabled (config s))) \<and>
   (intervalSeconds (config s) = 0 \<longrightarrow> intervalHandling now nowFire s = s)"
proof (intro conjI)
  show "intervalInvariant s \<longrightarrow> intervalInvariant (mqttCallback now payload s)"
    by (simp add: mqttCallback_intervalInvariant)
  show "startsWith (trim payload) ''INTERVAL:'' \<and>
    0 < (word_of_int (toInt (substringFrom (trim payload) (length ''INTERVAL:''))) :: u32) \<longrightarrow>
      intervalInvariant (mqttCallback now payload s)"
    by (simp add: mqtt_interval intervalInvariant_def)
  show "snd (handleIntervalPost now req s) = 303 \<longrightarrow>
      intervalInvariant (fst (handleIntervalPost now req s))"
    by (rule handleIntervalPost_invariant)
  show "snd (handleIntervalPost now req s) \<noteq> 303 \<longrightarrow> fst (handleIntervalPost now req s) = s"
    by (rule handleIntervalPost_rejected)
  show "configFile s = Some doc \<longrightarrow>
      intervalSeconds (config (loadConfig s)) =
        orDefault (docIntervalSeconds doc) (intervalSeconds (config s)) \<and>
      intervalEnabled (config (loadConfig s)) =
        orDefault (docIntervalEnabled doc) (intervalEnabled (config s))"
    by (rule loadConfig_interval)
  show "intervalSeconds (config s) = 0 \<longrightarrow> intervalHandling now nowFire s = s"
    by (simp add: intervalHandling_inactive)
qed


text \<open>
  The witness: \<open>INTERVAL:30\<close> from the initial state, the HTTP form with a period of 0
  and the box checked (accepted, and left disabled), and the file with a period of 0.
\<close>

theorem interval_invariant_after_commands_witness:
  "intervalInvariant initialGlobals \<and>
   intervalInvariant (mqttCallback 0 ''INTERVAL:30'' initialGlobals) \<and>
   intervalEnabled (config (mqttCallback 0 ''INTERVAL:30'' initialGlobals)) \<and>
   snd (handleIntervalPost 0 [(''seconds'', ''0''), (''enabled'', ''on'')] initialGlobals) = 303 \<and>
   intervalInvariant
     (fst (handleIntervalPost 0 [(''seconds'', ''0''), (''enabled'', ''on'')] initialGlobals)) \<and>
   \<not> intervalEnabled (config
     (fst (handleIntervalPost 0 [(''seconds'', ''0''), (''enabled'', ''on'')] initialGlobals))) \<and>
   configFile zeroPeriodStore = Some zeroPeriodDoc \<and>
   intervalSeconds (config (loadConfig zeroPeriodStore)) = 0 \<and>
   intervalEnabled (config (loadConfig zeroPeriodStore)) \<and>
   intervalHandling 5000 5000 (loadConfig zeroPeriodStore) = loadConfig zeroPeriodStore"
proof -
  have i0: "intervalInvariant initialGlobals"
    by (simp add: intervalInvariant_def initialGlobals_def defaultConfig_def)
  have h3: "startsWith (trim ''INTERVAL:30'') ''INTERVAL:'' \<and>
    0 < (word_of_int (toInt (substringFrom (trim ''INTERVAL:30'') (length ''INTERVAL:''))) :: u32)"
    by code_simp
  have h4: "snd (handleIntervalPost 0 [(''seconds'', ''0''), (''enabled'', ''on'')]
      initialGlobals) = 303" by code_simp
  note t = interval_invariant_after_commands [where s = initialGlobals and now = 0
      and payload = "''INTERVAL:30''" and req = "[(''seconds'', ''0''), (''enabled'', ''on'')]"]
  from t h3 have c1: "intervalInvariant (mqttCallback 0 ''INTERVAL:30'' initialGlobals)"
    by blast
  have c1': "intervalEnabled (config (mqttCallback 0 ''INTERVAL:30'' initialGlobals))"
    by code_simp
  from t h4 have c2: "intervalInvariant
     (fst (handleIntervalPost 0 [(''seconds'', ''0''), (''enabled'', ''on'')] initialGlobals))"
    by blast
  have c2': "\<not> intervalEnabled (config
     (fst (handleIntervalPost 0 [(''seconds'', ''0''), (''enabled'', ''on'')] initialGlobals)))"
    by code_simp
  have f: "configFile zeroPeriodStore = Some zeroPeriodDoc"
    by (simp add: zeroPeriodStore_def)
  have d: "docIntervalSeconds zeroPeriodDoc = Some 0" "docIntervalEnabled zeroPeriodDoc = Some True"
    by (simp_all add: zeroPeriodDoc_def)
  from interval_invariant_after_commands [where s = zeroPeriodStore and doc = zeroPeriodDoc] f
  have "intervalSeconds (config (loadConfig zeroPeriodStore)) =
        orDefault (docIntervalSeconds zeroPeriodDoc) (intervalSeconds (config zeroPeriodStore)) \<and>
      intervalEnabled (config (loadConfig zeroPeriodStore)) =
        orDefault (docIntervalEnabled zeroPeriodDoc) (intervalEnabled (config zeroPeriodStore))"
    by blast
  then have c3: "intervalSeconds (config (loadConfig zeroPeriodStore)) = 0"
    and c3': "intervalEnabled (config (loadConfig zeroPeriodStore))"
    by (simp_all add: d orDefault_def)
  from interval_invariant_after_commands [where s = "loadConfig zeroPeriodStore"
      and now = 5000 and nowFire = 5000] c3
  have c4: "intervalHandling 5000 5000 (loadConfig zeroPeriodStore) = loadConfig zeroPeriodStore"
    by blast
  from i0 c1 c1' h4 c2 c2' f c3 c3' c4 show ?thesis by blast
qed

section \<open>The loop returns on aligned vectors\<close>

text \<open>
  The start-up function leaves fresh flags, every handler keeps the vectors aligned, and
  on aligned vectors an iteration of \<open>loop\<close> returns a state with aligned vectors: the
  unchecked access to \<open>scheduleFiredToday\<close> stays inside the vector.
\<close>

lemma setupSketch_fresh: "flagsFresh (setupSketch s)"
  by (simp add: setupSketch_def Let_def flagsFresh_def)

lemma finishPulse_aligned:
  "scheduleAligned (finishPulse now s) = scheduleAligned s"
  by (simp add: finishPulse_def scheduleAligned_def)

lemma intervalHandling_aligned:
  "scheduleAligned (intervalHandling now nowFire s) = scheduleAligned s"
  by (simp add: intervalHandling_def scheduleAligned_def Let_def)

lemma scheduleHandling_returns:
  assumes "scheduleAligned s"
  shows "\<exists>s'. scheduleHandling now_utc now_utc2 tick s = Some s' \<and> scheduleAligned s'"
proof (cases "now_utc = lastTimeCheck s")
  case True
  with assms show ?thesis by (simp add: scheduleHandling_same_second)
next
  case False
  from scheduleHandling_aligned_result [OF False newDayCheck_aligned [OF assms], of now_utc2 tick]
  show ?thesis by blast
qed

lemma loop_returns:
  assumes "scheduleAligned s"
  shows "\<exists>s'. loop nowPulse nowInterval nowFire now_utc now_utc2 tick s = Some s' \<and>
      scheduleAligned s'"
  unfolding loop_def
  by (rule scheduleHandling_returns) (simp add: intervalHandling_aligned finishPulse_aligned assms)

end
